theory Spec2Isabelle
  imports Complex_Main
begin

section \<open>JavaScript strings\<close>

text \<open>
  A JavaScript string is a sequence of UTF-16 code units; a code unit is modelled as a
  natural number. \<open>lit\<close> turns an ASCII literal into its code units.
\<close>

type_synonym jsstring = "nat list"

abbreviation lit :: "string \<Rightarrow> jsstring" where
  "lit s \<equiv> map of_char s"

text \<open>
  The characters matched by \<^verbatim>\<open>\s\<close> in a regular expression, which are also the ones
  \<^verbatim>\<open>String.prototype.trim\<close> strips: tab, line feed, vertical tab, form feed, carriage
  return, space, U+00A0, U+1680, U+2000 to U+200A, U+2028, U+2029, U+202F, U+205F, U+3000
  and U+FEFF.
\<close>

definition is_space :: "nat \<Rightarrow> bool" where
  "is_space c \<longleftrightarrow>
     c \<in> set [9, 10, 11, 12, 13, 32, 160, 5760, 8232, 8233, 8239, 8287, 12288, 65279]
     \<or> (8192 \<le> c \<and> c \<le> 8202)"

abbreviation non_space :: "nat \<Rightarrow> bool" where
  "non_space c \<equiv> \<not> is_space c"

text \<open>\<^verbatim>\<open>s.trim()\<close>\<close>

definition trim :: "jsstring \<Rightarrow> jsstring" where
  "trim s = rev (dropWhile is_space (rev (dropWhile is_space s)))"

text \<open>
  \<^verbatim>\<open>s.split(/\s+/)\<close>: the pieces of \<open>s\<close> between its maximal runs of whitespace. A run
  at the start or at the end of \<open>s\<close> leaves an empty piece there, and the empty string
  gives one empty piece.
\<close>

function split_ws :: "jsstring \<Rightarrow> jsstring list" where
  "split_ws s =
     (let piece = takeWhile non_space s;
          rest = dropWhile non_space s
      in if rest = [] then [piece] else piece # split_ws (dropWhile is_space (tl rest)))"
  by pat_completeness auto
termination
proof (relation "measure length")
  show "wf (measure (length :: jsstring \<Rightarrow> nat))" by simp
next
  fix s piece rest :: jsstring
  assume r: "rest = dropWhile non_space s" and ne: "rest \<noteq> []"
  have "length (dropWhile is_space (tl rest)) \<le> length (tl rest)"
    by (rule length_dropWhile_le)
  also have "\<dots> < length rest" using ne by (cases rest) simp_all
  also have "\<dots> \<le> length s" unfolding r by (rule length_dropWhile_le)
  finally show "(dropWhile is_space (tl rest), s) \<in> measure length" by simp
qed

text \<open>\<^verbatim>\<open>s.split(/\s+/).length\<close>, the expression every word count of the services uses.\<close>

definition split_count :: "jsstring \<Rightarrow> nat" where
  "split_count s = length (split_ws s)"

text \<open>
  The whitespace-delimited tokens of a text, as the specification words it: the maximal
  runs of characters that are not whitespace.
\<close>

function tokens :: "jsstring \<Rightarrow> jsstring list" where
  "tokens s =
     (let s' = dropWhile is_space s
      in if s' = [] then [] else takeWhile non_space s' # tokens (dropWhile non_space (tl s')))"
  by pat_completeness auto
termination
proof (relation "measure length")
  show "wf (measure (length :: jsstring \<Rightarrow> nat))" by simp
next
  fix s s' :: jsstring
  assume r: "s' = dropWhile is_space s" and ne: "s' \<noteq> []"
  have "length (dropWhile non_space (tl s')) \<le> length (tl s')"
    by (rule length_dropWhile_le)
  also have "\<dots> < length s'" using ne by (cases s') simp_all
  also have "\<dots> \<le> length s" unfolding r by (rule length_dropWhile_le)
  finally show "(dropWhile non_space (tl s'), s) \<in> measure length" by simp
qed

declare split_ws.simps [simp del] tokens.simps [simp del]

text \<open>\<^verbatim>\<open>parts.join(sep)\<close>\<close>

fun join :: "jsstring \<Rightarrow> jsstring list \<Rightarrow> jsstring" where
  "join sep [] = []"
| "join sep [x] = x"
| "join sep (x # y # ys) = x @ sep @ join sep (y # ys)"

text \<open>\<^verbatim>\<open>s.includes(t)\<close>\<close>

fun includes_str :: "jsstring \<Rightarrow> jsstring \<Rightarrow> bool" where
  "includes_str [] t = (t = [])"
| "includes_str (c # cs) t = (take (length t) (c # cs) = t \<or> includes_str cs t)"

text \<open>The decimal digits of a number, as string interpolation writes it.\<close>

fun digits :: "nat \<Rightarrow> nat \<Rightarrow> jsstring" where
  "digits 0 n = []"
| "digits (Suc fuel) n = (if n < 10 then [48 + n] else digits fuel (n div 10) @ [48 + n mod 10])"

definition show_nat :: "nat \<Rightarrow> jsstring" where
  "show_nat n = digits (Suc n) n"


section \<open>Rows of the store\<close>

text \<open>
  Identifiers are the UUIDs the database generates, modelled as numbers. A table is the
  list of its rows in the order of insertion. A row has the columns the services read or
  write; timestamps that no service reads back are left out.
\<close>

type_synonym uuid = nat

record topic =
  t_id :: uuid
  t_user_id :: uuid
  t_name :: jsstring

text \<open>
  The metadata object of an extracted content. It is an open bag of fields in the source;
  the fields kept here are the ones a service reads. Dates and constant labels
  (\<^verbatim>\<open>platform\<close>, \<^verbatim>\<open>documentType\<close>, \<^verbatim>\<open>extractionDate\<close>, ...) are left out.
\<close>

record metadata =
  wordCount :: nat
  fileType :: "jsstring option"
  hasTranscript :: "bool option"
  extractionError :: "jsstring option"
  videoId :: "jsstring option"
  originalUrl :: "jsstring option"
  contentLength :: "nat option"

record extracted_content =
  ec_type :: jsstring
  ec_source :: jsstring
  extractedText :: jsstring
  ec_metadata :: metadata

record document =
  d_id :: uuid
  d_topic_id :: uuid
  d_user_id :: "uuid option"
  filename :: jsstring
  storage_path :: "jsstring option"
  d_file_type :: jsstring
  d_file_size :: nat

text \<open>A null \<^verbatim>\<open>content\<close> column reads as the empty string: the services only join it.\<close>

record knowledge_base_entry =
  kb_id :: uuid
  kb_topic_id :: uuid
  kb_user_id :: uuid
  kb_document_id :: "uuid option"
  kb_type :: jsstring
  kb_source :: jsstring
  kb_content :: jsstring
  kb_metadata :: metadata

record source =
  s_id :: uuid
  s_topic_id :: uuid
  s_user_id :: uuid
  s_document_id :: "uuid option"
  source_type :: jsstring
  source_name :: jsstring
  original_name :: "jsstring option"
  s_file_type :: "jsstring option"
  s_file_size :: "nat option"
  word_count :: "nat option"
  s_metadata :: metadata
  knowledge_base_id :: "uuid option"

record breakdown =
  b_flashcards :: nat
  b_multipleChoice :: nat
  b_openEnded :: nat
  b_summaries :: nat

record generation =
  g_id :: uuid
  g_topic_id :: uuid
  g_user_id :: uuid
  generation_type :: jsstring
  source_ids :: "uuid list"
  status :: jsstring
  items_generated :: nat
  g_breakdown :: "breakdown option"
  error_message :: "jsstring option"
  completed_at :: "int option"
  processing_time_ms :: "int option"

text \<open>
  A generated study item, the JSON object of the completion service, with the fields the
  services read (\<^verbatim>\<open>type\<close>, \<^verbatim>\<open>front\<close>, \<^verbatim>\<open>question\<close>, \<^verbatim>\<open>title\<close>, \<^verbatim>\<open>difficulty\<close>); the rest of the
  payload is carried as one opaque text.
\<close>

record study_item =
  i_type :: jsstring
  i_front :: "jsstring option"
  i_question :: "jsstring option"
  i_title :: "jsstring option"
  i_difficulty :: "jsstring option"
  i_payload :: jsstring

record question =
  q_id :: uuid
  q_topic_id :: uuid
  q_user_id :: uuid
  q_type :: jsstring
  question_data :: study_item
  is_saved :: bool
  q_generation_id :: "uuid option"
  source_attribution :: "uuid list option"

record generation_item =
  gi_id :: uuid
  gi_generation_id :: uuid
  gi_question_id :: uuid
  item_type :: jsstring
  item_title :: jsstring
  gi_difficulty :: jsstring
  derived_from_sources :: "uuid list"

text \<open>
  \<^verbatim>\<open>interval\<close> is a FLOAT column: a finite double, held as the rational it denotes. Times
  are milliseconds since the epoch. The service writes every column of a row, so no column
  of a row is null; the store's own checks on a row are part of its answer to the request.
\<close>

record flashcard_progress =
  fp_question_id :: uuid
  fp_user_id :: uuid
  reviews :: int
  last_review :: int
  next_review :: int
  interval :: rat

text \<open>
  The state of the two stateful collaborators: the tables of the relational store, the
  paths held by the \<^verbatim>\<open>documents\<close> bucket of the blob store, and the next identifier the
  database will hand out.
\<close>

record db =
  topics :: "topic list"
  documents :: "document list"
  knowledge_base :: "knowledge_base_entry list"
  sources :: "source list"
  generations :: "generation list"
  questions :: "question list"
  generation_items :: "generation_item list"
  flashcard_progress_rows :: "flashcard_progress list"
  blobs :: "jsstring list"
  next_uuid :: uuid

section \<open>The environment of a call\<close>

text \<open>
  What the collaborators answer during one service call is an input of the model. A
  store or bucket request either is carried out or is answered with an error object and
  has no effect; \<open>fails\<close> says which, per request.
\<close>

record store_error =
  code :: jsstring
  message :: jsstring

datatype store_call =
    SelectTopic
  | SelectSources
  | SelectKnowledgeBase
  | SelectSourceDocuments
  | SelectTextSources
  | SelectKnowledgeBaseByDocuments
  | SelectKnowledgeBaseByIds
  | RpcInsertDocument
  | InsertDocument
  | InsertKnowledgeBase
  | InsertSource
  | InsertGeneration
  | UpdateGeneration "jsstring option"
  | InsertQuestions
  | InsertGenerationItems
  | UpdateQuestion
  | SelectFlashcardProgress
  | UpsertFlashcardProgress
  | StorageUpload
  | StorageRemove

text \<open>
  The reply of the completion service to the one request of a generation run:
  the request threw (network failure, a body that is not JSON, a body without
  \<^verbatim>\<open>choices[0].message.content\<close>), the response was not \<^verbatim>\<open>ok\<close> (status, status text and
  the error message of the body), or it carried a content string that
  \<^verbatim>\<open>JSON.parse\<close> rejects or parses. A parsed content is modelled as an object whose four
  collections are each absent or an array of items.
\<close>

record generated_content =
  flashcards :: "study_item list option"
  multipleChoice :: "study_item list option"
  openEnded :: "study_item list option"
  summaries :: "study_item list option"

datatype completion =
    Threw jsstring
  | NotOk nat jsstring "jsstring option"
  | Unparseable
  | Parsed generated_content

record env =
  user :: "uuid option"
  apiKey :: "jsstring option"
  fails :: "store_call \<Rightarrow> store_error option"
  completion :: completion
  startTime :: int
  endTime :: int
  isoNow :: jsstring

type_synonym 'a result = "jsstring + 'a"

text \<open>
  The message with which the store answers a \<^verbatim>\<open>.single()\<close> query that did not match exactly
  one row. The text is the store's; no statement below reads it.
\<close>

definition single_row_error :: jsstring where
  "single_row_error = lit ''JSON object requested, multiple (or no) rows returned''"

definition not_authenticated :: jsstring where
  "not_authenticated = lit ''User not authenticated''"

text \<open>\<^verbatim>\<open>.single()\<close>: the row when the query matched exactly one row, an error otherwise.\<close>

definition single :: "'a list \<Rightarrow> 'a result" where
  "single rows = (case rows of [r] \<Rightarrow> Inr r | _ \<Rightarrow> Inl single_row_error)"


section \<open>Reads of the store\<close>

text \<open>
  Every service method first asks for the signed-in user and throws when there is none.
  Queries ordered by creation time, newest first, read the table backwards.
\<close>

definition getTopic :: "env \<Rightarrow> db \<Rightarrow> uuid \<Rightarrow> topic result" where
  "getTopic e d tid =
     (case user e of
        None \<Rightarrow> Inl not_authenticated
      | Some u \<Rightarrow>
          (case fails e SelectTopic of
             Some err \<Rightarrow> Inl (message err)
           | None \<Rightarrow> single (filter (\<lambda>t. t_id t = tid \<and> t_user_id t = u) (topics d))))"

definition getSources :: "env \<Rightarrow> db \<Rightarrow> uuid \<Rightarrow> source list result" where
  "getSources e d tid =
     (case user e of
        None \<Rightarrow> Inl not_authenticated
      | Some u \<Rightarrow>
          (case fails e SelectSources of
             Some err \<Rightarrow> Inl (message err)
           | None \<Rightarrow> Inr (rev (filter (\<lambda>s. s_topic_id s = tid \<and> s_user_id s = u) (sources d)))))"

definition getKnowledgeBase :: "env \<Rightarrow> db \<Rightarrow> uuid \<Rightarrow> knowledge_base_entry list result" where
  "getKnowledgeBase e d tid =
     (case user e of
        None \<Rightarrow> Inl not_authenticated
      | Some u \<Rightarrow>
          (case fails e SelectKnowledgeBase of
             Some err \<Rightarrow> Inl (message err)
           | None \<Rightarrow>
               Inr (rev (filter (\<lambda>k. kb_topic_id k = tid \<and> kb_user_id k = u) (knowledge_base d)))))"

text \<open>
  \<^verbatim>\<open>getKnowledgeBaseBySourceIds\<close>. When none of the selected sources has a document, the
  main query carries no document filter and returns every entry of the topic.
\<close>

definition not_null :: "'a option list \<Rightarrow> 'a list" where
  "not_null xs = map the (filter (\<lambda>i. i \<noteq> None) xs)"

definition merge_text_entries ::
  "knowledge_base_entry list \<Rightarrow> knowledge_base_entry list \<Rightarrow> knowledge_base_entry list" where
  "merge_text_entries filteredData textData =
     filteredData @ filter (\<lambda>k. kb_id k \<notin> set (map kb_id filteredData)) textData"

definition getKnowledgeBaseBySourceIds ::
  "env \<Rightarrow> db \<Rightarrow> uuid \<Rightarrow> uuid list \<Rightarrow> knowledge_base_entry list result" where
  "getKnowledgeBaseBySourceIds e d tid sourceIds =
     (case user e of
        None \<Rightarrow> Inl not_authenticated
      | Some u \<Rightarrow>
     (case fails e SelectSourceDocuments of
        Some err \<Rightarrow> Inl (message err)
      | None \<Rightarrow>
     (let selected = filter (\<lambda>s. s_topic_id s = tid \<and> s_user_id s = u \<and> s_id s \<in> set sourceIds)
                       (sources d)
      in if selected = [] then Inr [] else
     (let documentIds = not_null (map s_document_id selected);
          ofTopic = filter (\<lambda>k. kb_topic_id k = tid \<and> kb_user_id k = u) (knowledge_base d);
          query = (if documentIds \<noteq> []
                   then filter (\<lambda>k. case kb_document_id k of
                                       None \<Rightarrow> False | Some i \<Rightarrow> i \<in> set documentIds) ofTopic
                   else ofTopic)
      in
     (case fails e SelectTextSources of
        Some err \<Rightarrow> Inl (message err)
      | None \<Rightarrow>
     (let knowledgeBaseIds =
            not_null (map knowledge_base_id (filter (\<lambda>s. source_type s = lit ''text'') selected))
      in
     (case fails e SelectKnowledgeBaseByDocuments of
        Some err \<Rightarrow> Inl (message err)
      | None \<Rightarrow>
     (let filteredData = rev query
      in if knowledgeBaseIds = [] then Inr filteredData else
     (case fails e SelectKnowledgeBaseByIds of
        Some err \<Rightarrow> Inl (message err)
      | None \<Rightarrow>
          Inr (merge_text_entries filteredData
                 (rev (filter (\<lambda>k. kb_id k \<in> set knowledgeBaseIds) ofTopic))))))))))))"

section \<open>The provenance store\<close>

definition createGeneration ::
  "env \<Rightarrow> db \<Rightarrow> uuid \<Rightarrow> jsstring \<Rightarrow> uuid list \<Rightarrow> jsstring \<Rightarrow> db \<times> generation result" where
  "createGeneration e d topicId generationType sourceIds st =
     (case user e of
        None \<Rightarrow> (d, Inl not_authenticated)
      | Some u \<Rightarrow>
          (case fails e InsertGeneration of
             Some err \<Rightarrow> (d, Inl (message err))
           | None \<Rightarrow>
               (let g = \<lparr>g_id = next_uuid d, g_topic_id = topicId, g_user_id = u,
                         generation_type = generationType, source_ids = sourceIds, status = st,
                         items_generated = 0, g_breakdown = None, error_message = None,
                         completed_at = None, processing_time_ms = None\<rparr>
                in (d\<lparr>generations := generations d @ [g], next_uuid := Suc (next_uuid d)\<rparr>, Inr g))))"

text \<open>
  The \<^verbatim>\<open>updates\<close> object of \<^verbatim>\<open>updateGeneration\<close>. The object is spread into the update as it
  is, and the columns \<^verbatim>\<open>completed_at\<close>, \<^verbatim>\<open>items_generated\<close>, \<^verbatim>\<open>processing_time_ms\<close> and
  \<^verbatim>\<open>error_message\<close> are added from its camel-case keys; the camel-case keys themselves
  name no column. \<^verbatim>\<open>completed_at\<close> is added only when the status written is
  \<^verbatim>\<open>completed\<close> and \<^verbatim>\<open>completedAt\<close> is not given.
\<close>

record generation_update =
  u_status :: "jsstring option"
  u_itemsGenerated :: "nat option"
  u_breakdown :: "breakdown option"
  u_completedAt :: "int option"
  u_processingTimeMs :: "int option"
  u_errorMessage :: "jsstring option"

definition apply_update :: "env \<Rightarrow> generation_update \<Rightarrow> generation \<Rightarrow> generation" where
  "apply_update e upd g =
     g\<lparr>status := (case u_status upd of Some s \<Rightarrow> s | None \<Rightarrow> status g),
       g_breakdown := (case u_breakdown upd of Some b \<Rightarrow> Some b | None \<Rightarrow> g_breakdown g),
       completed_at := (if u_status upd = Some (lit ''completed'') \<and> u_completedAt upd = None
                        then Some (endTime e) else completed_at g),
       items_generated := (case u_itemsGenerated upd of Some n \<Rightarrow> n | None \<Rightarrow> items_generated g),
       processing_time_ms := (case u_processingTimeMs upd of Some t \<Rightarrow> Some t
                                                           | None \<Rightarrow> processing_time_ms g),
       error_message := (case u_errorMessage upd of Some m \<Rightarrow> Some m | None \<Rightarrow> error_message g)\<rparr>"

text \<open>
  \<^verbatim>\<open>updateGeneration\<close>: the row with the given id that belongs to the user is updated and
  returned through \<^verbatim>\<open>.single()\<close>. Identifiers are primary keys, so at most one row matches;
  a request that matches no row, or several, is answered with the error of
  \<^verbatim>\<open>.single()\<close> and changes nothing.
\<close>

definition updateGeneration ::
  "env \<Rightarrow> db \<Rightarrow> uuid \<Rightarrow> generation_update \<Rightarrow> db \<times> generation result" where
  "updateGeneration e d generationId upd =
     (case user e of
        None \<Rightarrow> (d, Inl not_authenticated)
      | Some u \<Rightarrow>
          (case fails e (UpdateGeneration (u_status upd)) of
             Some err \<Rightarrow> (d, Inl (message err))
           | None \<Rightarrow>
               (case filter (\<lambda>g. g_id g = generationId \<and> g_user_id g = u) (generations d) of
                  [g] \<Rightarrow>
                    (d\<lparr>generations :=
                         map (\<lambda>g. if g_id g = generationId \<and> g_user_id g = u
                                   then apply_update e upd g else g) (generations d)\<rparr>,
                     Inr (apply_update e upd g))
                | _ \<Rightarrow> (d, Inl single_row_error))))"

definition addQuestionsWithGeneration ::
  "env \<Rightarrow> db \<Rightarrow> uuid \<Rightarrow> study_item list \<Rightarrow> uuid \<Rightarrow> uuid list \<Rightarrow> db \<times> question list result" where
  "addQuestionsWithGeneration e d topicId items generationId sourceIds =
     (case user e of
        None \<Rightarrow> (d, Inl not_authenticated)
      | Some u \<Rightarrow>
          (case fails e InsertQuestions of
             Some err \<Rightarrow> (d, Inl (message err))
           | None \<Rightarrow>
               (let questionsToInsert =
                      map (\<lambda>(i, q). \<lparr>q_id = i, q_topic_id = topicId, q_user_id = u,
                                      q_type = i_type q, question_data = q, is_saved = False,
                                      q_generation_id = Some generationId,
                                      source_attribution = Some sourceIds\<rparr>)
                          (enumerate (next_uuid d) items)
                in (d\<lparr>questions := questions d @ questionsToInsert,
                      next_uuid := next_uuid d + length items\<rparr>,
                    Inr questionsToInsert))))"

text \<open>\<^verbatim>\<open>a || b\<close> on an optional string: \<open>b\<close> when \<open>a\<close> is absent or empty.\<close>

definition or_str :: "jsstring option \<Rightarrow> jsstring \<Rightarrow> jsstring" where
  "or_str a b = (case a of Some s \<Rightarrow> if s \<noteq> [] then s else b | None \<Rightarrow> b)"

definition extractItemTitle :: "study_item \<Rightarrow> jsstring" where
  "extractItemTitle questionData =
     (if i_type questionData = lit ''flashcard''
        then or_str (map_option (take 100) (i_front questionData)) (lit ''Flashcard'')
      else if i_type questionData = lit ''multiple-choice''
        then or_str (map_option (take 100) (i_question questionData)) (lit ''Multiple Choice'')
      else if i_type questionData = lit ''open-ended''
        then or_str (map_option (take 100) (i_question questionData)) (lit ''Open-Ended Question'')
      else if i_type questionData = lit ''summary''
        then or_str (i_title questionData) (lit ''Summary'')
      else lit ''Study Item'')"

definition createGenerationItems ::
  "env \<Rightarrow> db \<Rightarrow> uuid \<Rightarrow> question list \<Rightarrow> uuid list \<Rightarrow> db \<times> generation_item list result" where
  "createGenerationItems e d generationId qs sourceIds =
     (case user e of
        None \<Rightarrow> (d, Inl not_authenticated)
      | Some u \<Rightarrow>
          (let generationItems =
                 map (\<lambda>(i, q). \<lparr>gi_id = i, gi_generation_id = generationId, gi_question_id = q_id q,
                                 item_type = or_str (Some (i_type (question_data q))) (q_type q),
                                 item_title = extractItemTitle (question_data q),
                                 gi_difficulty = or_str (i_difficulty (question_data q)) (lit ''medium''),
                                 derived_from_sources = sourceIds\<rparr>)
                     (enumerate (next_uuid d) qs)
           in case fails e InsertGenerationItems of
                Some err \<Rightarrow> (d, Inl (message err))
              | None \<Rightarrow>
                  (d\<lparr>generation_items := generation_items d @ generationItems,
                     next_uuid := next_uuid d + length qs\<rparr>,
                   Inr generationItems)))"

definition saveQuestion :: "env \<Rightarrow> db \<Rightarrow> uuid \<Rightarrow> db \<times> unit result" where
  "saveQuestion e d questionId =
     (case user e of
        None \<Rightarrow> (d, Inl not_authenticated)
      | Some u \<Rightarrow>
          (case fails e UpdateQuestion of
             Some err \<Rightarrow> (d, Inl (message err))
           | None \<Rightarrow>
               (d\<lparr>questions := map (\<lambda>q. if q_id q = questionId \<and> q_user_id q = u
                                          then q\<lparr>is_saved := True\<rparr> else q) (questions d)\<rparr>,
                Inr ())))"

text \<open>\<^verbatim>\<open>getQuestions(topicId)\<close> without the \<^verbatim>\<open>savedOnly\<close> filter: the question pool of a topic.\<close>

definition question_pool :: "db \<Rightarrow> uuid \<Rightarrow> uuid \<Rightarrow> question list" where
  "question_pool d u topicId = rev (filter (\<lambda>q. q_topic_id q = topicId \<and> q_user_id q = u) (questions d))"


section \<open>The completion service\<close>

text \<open>
  \<^verbatim>\<open>FileProcessingService.generateAIContent\<close>. A piece of content is a knowledge-base row
  (which has \<^verbatim>\<open>content\<close>) or an extracted content (which has \<^verbatim>\<open>extractedText\<close>); its text
  is \<^verbatim>\<open>extractedText || content\<close>. The prompts sent are built from the topic name and
  the combined text; the reply is an input of the model, so they are not written out.
\<close>

record content_piece =
  p_extractedText :: "jsstring option"
  p_content :: "jsstring option"

definition piece_text :: "content_piece \<Rightarrow> jsstring" where
  "piece_text p = or_str (p_extractedText p) (case p_content p of Some c \<Rightarrow> c | None \<Rightarrow> [])"

definition piece_of_entry :: "knowledge_base_entry \<Rightarrow> content_piece" where
  "piece_of_entry k = \<lparr>p_extractedText = None, p_content = Some (kb_content k)\<rparr>"

record ai_result =
  generated :: nat
  content :: "study_item list"
  ai_breakdown :: breakdown

definition or_empty :: "'a list option \<Rightarrow> 'a list" where
  "or_empty xs = (case xs of Some l \<Rightarrow> l | None \<Rightarrow> [])"

definition fps_generateAIContent ::
  "jsstring \<Rightarrow> content_piece list \<Rightarrow> jsstring \<Rightarrow> completion \<Rightarrow> ai_result result" where
  "fps_generateAIContent topicName contentPieces key reply =
     (let combinedText = join [10, 10] (map piece_text contentPieces)
      in if trim combinedText = [] then Inl (lit ''No content available for AI processing'')
         else
           (case reply of
              Threw m \<Rightarrow> Inl m
            | NotOk st statusText m \<Rightarrow>
                Inl (lit ''OpenAI API error: '' @ show_nat st @ lit '' '' @ statusText @ lit ''. ''
                     @ or_str m [])
            | Unparseable \<Rightarrow> Inl (lit ''Failed to parse AI response. Please try again.'')
            | Parsed generatedContent \<Rightarrow>
                (let allContent = or_empty (flashcards generatedContent)
                                  @ or_empty (multipleChoice generatedContent)
                                  @ or_empty (openEnded generatedContent)
                                  @ or_empty (summaries generatedContent)
                 in if length allContent = 0
                    then Inl (lit ''No content was generated. Please try again.'')
                    else Inr \<lparr>generated = length allContent, content = allContent,
                              ai_breakdown =
                                \<lparr>b_flashcards = length (or_empty (flashcards generatedContent)),
                                 b_multipleChoice = length (or_empty (multipleChoice generatedContent)),
                                 b_openEnded = length (or_empty (openEnded generatedContent)),
                                 b_summaries = length (or_empty (summaries generatedContent))\<rparr>\<rparr>)))"

section \<open>The generation coordinator\<close>

text \<open>
  The calls to the notification service write to the console and to the user interface
  only; they are not modelled. The bulk and the selective method share the text of their
  inner \<^verbatim>\<open>try\<close> block (steps 5 to 8) and of its \<^verbatim>\<open>catch\<close>; each is written once here.
\<close>

record generation_result =
  r_generated :: nat
  r_breakdown :: breakdown
  r_generationId :: uuid
  r_sourceCount :: "nat option"

definition api_key :: "env \<Rightarrow> jsstring result" where
  "api_key e =
     (case apiKey e of
        None \<Rightarrow> Inl (lit ''OpenAI API key not configured. Please contact support.'')
      | Some k \<Rightarrow> if k = [] then Inl (lit ''OpenAI API key not configured. Please contact support.'')
                  else Inr k)"

text \<open>Steps 5 to 8: generate, save the questions, create the generation items, complete.\<close>

definition generation_steps ::
  "env \<Rightarrow> db \<Rightarrow> uuid \<Rightarrow> jsstring \<Rightarrow> knowledge_base_entry list \<Rightarrow> jsstring \<Rightarrow> generation
     \<Rightarrow> uuid list \<Rightarrow> db \<times> ai_result result" where
  "generation_steps e d topicId topicName knowledgeBase key gen sourceIds =
     (case fps_generateAIContent topicName (map piece_of_entry knowledgeBase) key (completion e) of
        Inl m \<Rightarrow> (d, Inl m)
      | Inr aiResult \<Rightarrow>
     (case addQuestionsWithGeneration e d topicId (content aiResult) (g_id gen) sourceIds of
        (d1, Inl m) \<Rightarrow> (d1, Inl m)
      | (d1, Inr qs) \<Rightarrow>
     (case createGenerationItems e d1 (g_id gen) qs sourceIds of
        (d2, Inl m) \<Rightarrow> (d2, Inl m)
      | (d2, Inr gis) \<Rightarrow>
     (case updateGeneration e d2 (g_id gen)
             \<lparr>u_status = Some (lit ''completed''), u_itemsGenerated = Some (generated aiResult),
              u_breakdown = Some (ai_breakdown aiResult), u_completedAt = Some (endTime e),
              u_processingTimeMs = Some (endTime e - startTime e), u_errorMessage = None\<rparr> of
        (d3, Inl m) \<Rightarrow> (d3, Inl m)
      | (d3, Inr g') \<Rightarrow> (d3, Inr aiResult)))))"

text \<open>
  The \<^verbatim>\<open>catch\<close> of the inner block: record the failure on the generation and rethrow. When
  the update itself throws, its error is the one that leaves the block.
\<close>

definition generation_failed :: "env \<Rightarrow> db \<Rightarrow> generation \<Rightarrow> jsstring \<Rightarrow> db \<times> 'a result" where
  "generation_failed e d gen m =
     (case updateGeneration e d (g_id gen)
             \<lparr>u_status = Some (lit ''failed''), u_itemsGenerated = None, u_breakdown = None,
              u_completedAt = Some (endTime e), u_processingTimeMs = None,
              u_errorMessage = Some m\<rparr> of
        (d1, Inl m') \<Rightarrow> (d1, Inl m')
      | (d1, Inr g') \<Rightarrow> (d1, Inl m))"

definition generateAIContent :: "env \<Rightarrow> db \<Rightarrow> uuid \<Rightarrow> db \<times> generation_result result" where
  "generateAIContent e d topicId =
     (case user e of
        None \<Rightarrow> (d, Inl not_authenticated)
      | Some u \<Rightarrow>
     (case api_key e of
        Inl m \<Rightarrow> (d, Inl m)
      | Inr key \<Rightarrow>
     (case getSources e d topicId of
        Inl m \<Rightarrow> (d, Inl m)
      | Inr srcs \<Rightarrow>
     (let sourceIds = map s_id srcs
      in if length srcs = 0
         then (d, Inl (lit ''No sources available for this topic. Please upload content first.''))
         else
     (case getKnowledgeBase e d topicId of
        Inl m \<Rightarrow> (d, Inl m)
      | Inr knowledgeBase \<Rightarrow>
     (case getTopic e d topicId of
        Inl m \<Rightarrow> (d, Inl m)
      | Inr tp \<Rightarrow>
     (case createGeneration e d topicId (lit ''bulk'') sourceIds (lit ''processing'') of
        (d1, Inl m) \<Rightarrow> (d1, Inl m)
      | (d1, Inr gen) \<Rightarrow>
     (case generation_steps e d1 topicId (t_name tp) knowledgeBase key gen sourceIds of
        (d2, Inl m) \<Rightarrow> generation_failed e d2 gen m
      | (d2, Inr aiResult) \<Rightarrow>
          (d2, Inr \<lparr>r_generated = generated aiResult, r_breakdown = ai_breakdown aiResult,
                    r_generationId = g_id gen, r_sourceCount = None\<rparr>)))))))))"

definition generateAIContentFromSources ::
  "env \<Rightarrow> db \<Rightarrow> uuid \<Rightarrow> uuid list \<Rightarrow> db \<times> generation_result result" where
  "generateAIContentFromSources e d topicId sourceIds =
     (case user e of
        None \<Rightarrow> (d, Inl not_authenticated)
      | Some u \<Rightarrow>
     (case api_key e of
        Inl m \<Rightarrow> (d, Inl m)
      | Inr key \<Rightarrow>
     (case getSources e d topicId of
        Inl m \<Rightarrow> (d, Inl m)
      | Inr allSources \<Rightarrow>
     (let validSourceIds = filter (\<lambda>i. \<exists>s \<in> set allSources. s_id s = i) sourceIds
      in if length validSourceIds = 0
         then (d, Inl (lit ''No valid sources found for the selected items.''))
         else
     (case getKnowledgeBaseBySourceIds e d topicId validSourceIds of
        Inl m \<Rightarrow> (d, Inl m)
      | Inr filteredKnowledgeBase \<Rightarrow>
          if length filteredKnowledgeBase = 0
          then (d, Inl (lit ''No content found for the selected sources.''))
          else
     (case getTopic e d topicId of
        Inl m \<Rightarrow> (d, Inl m)
      | Inr tp \<Rightarrow>
     (case createGeneration e d topicId (lit ''selective'') validSourceIds (lit ''processing'') of
        (d1, Inl m) \<Rightarrow> (d1, Inl m)
      | (d1, Inr gen) \<Rightarrow>
     (case generation_steps e d1 topicId (t_name tp) filteredKnowledgeBase key gen validSourceIds of
        (d2, Inl m) \<Rightarrow> generation_failed e d2 gen m
      | (d2, Inr aiResult) \<Rightarrow>
          (d2, Inr \<lparr>r_generated = generated aiResult, r_breakdown = ai_breakdown aiResult,
                    r_generationId = g_id gen,
                    r_sourceCount = Some (length validSourceIds)\<rparr>)))))))))"


section \<open>Extraction\<close>

text \<open>A template literal that spans several lines is the join of its lines with line feeds.\<close>

definition text_lines :: "jsstring list \<Rightarrow> jsstring" where
  "text_lines ls = join [10] ls"

text \<open>\<^verbatim>\<open>s.replace(/\s+/g, ' ')\<close>\<close>

function collapse_ws :: "jsstring \<Rightarrow> jsstring" where
  "collapse_ws [] = []"
| "collapse_ws (c # cs) =
     (if is_space c then 32 # collapse_ws (dropWhile is_space cs) else c # collapse_ws cs)"
  by pat_completeness auto
termination
  by (relation "measure length") (auto simp: le_imp_less_Suc length_dropWhile_le)

text \<open>
  \<^verbatim>\<open>s.replace(/\[.*?\]/g, '')\<close>: an opening bracket is removed together with everything up to
  the next closing bracket, unless a line terminator comes first (\<^verbatim>\<open>.\<close> does not match one).
\<close>

definition line_terminator :: "nat \<Rightarrow> bool" where
  "line_terminator c \<longleftrightarrow> c \<in> set [10, 13, 8232, 8233]"

function remove_bracketed :: "jsstring \<Rightarrow> jsstring" where
  "remove_bracketed [] = []"
| "remove_bracketed (c # cs) =
     (if c = 91
      then (case dropWhile (\<lambda>x. x \<noteq> 93 \<and> \<not> line_terminator x) cs of
              [] \<Rightarrow> c # remove_bracketed cs
            | r # rs \<Rightarrow> if r = 93 then remove_bracketed rs else c # remove_bracketed cs)
      else c # remove_bracketed cs)"
  by pat_completeness auto
termination
proof (relation "measure length")
  show "wf (measure (length :: jsstring \<Rightarrow> nat))" by simp
next
  fix c r :: nat and cs rs :: jsstring
  assume "dropWhile (\<lambda>x. x \<noteq> 93 \<and> \<not> line_terminator x) cs = r # rs"
  then have "length (r # rs) \<le> length cs"
    by (metis length_dropWhile_le)
  then show "(rs, c # cs) \<in> measure length" by simp
qed simp_all

subsection \<open>Video transcripts\<close>

text \<open>
  \<^verbatim>\<open>extractYouTubeVideoId\<close>. The first pattern is searched anywhere in the URL: one of four
  prefixes followed by at least one character other than \<^verbatim>\<open>&\<close>, line feed, \<^verbatim>\<open>?\<close> and
  \<^verbatim>\<open>#\<close>; the identifier is the longest run of such characters. The second pattern is a
  whole string of eleven letters, digits, underscores or hyphens.
\<close>

definition id_char :: "nat \<Rightarrow> bool" where
  "id_char c \<longleftrightarrow> c \<notin> set [38, 10, 63, 35]"

definition video_prefixes :: "jsstring list" where
  "video_prefixes = [lit ''youtube.com/watch?v='', lit ''youtu.be/'', lit ''youtube.com/embed/'',
                     lit ''youtube.com/v/'']"

definition match_here :: "jsstring \<Rightarrow> jsstring option" where
  "match_here s =
     (case filter (\<lambda>p. take (length p) s = p \<and> takeWhile id_char (drop (length p) s) \<noteq> [])
             video_prefixes of
        [] \<Rightarrow> None
      | p # _ \<Rightarrow> Some (takeWhile id_char (drop (length p) s)))"

fun search_id :: "jsstring \<Rightarrow> jsstring option" where
  "search_id [] = None"
| "search_id (c # cs) = (case match_here (c # cs) of Some v \<Rightarrow> Some v | None \<Rightarrow> search_id cs)"

definition bare_id_char :: "nat \<Rightarrow> bool" where
  "bare_id_char c \<longleftrightarrow>
     (97 \<le> c \<and> c \<le> 122) \<or> (65 \<le> c \<and> c \<le> 90) \<or> (48 \<le> c \<and> c \<le> 57) \<or> c = 95 \<or> c = 45"

definition extractYouTubeVideoId :: "jsstring \<Rightarrow> jsstring option" where
  "extractYouTubeVideoId url =
     (case search_id url of
        Some v \<Rightarrow> Some v
      | None \<Rightarrow> if length url = 11 \<and> list_all bare_id_char url then Some url else None)"

text \<open>
  What the transcript provider answers within the race against the 30 second timer: the
  request threw, the timer won, or the request returned a transcript (possibly null).
  \<^verbatim>\<open>metadata.duration\<close> is left out of the model, so a segment keeps only its text.
\<close>

datatype transcript_reply =
    TranscriptThrew jsstring
  | TimedOut
  | Transcript "jsstring list option"

definition warning_sign :: jsstring where
  "warning_sign = [9888, 65039]"

definition fallbackText :: "jsstring \<Rightarrow> jsstring option \<Rightarrow> jsstring \<Rightarrow> jsstring" where
  "fallbackText url vid m = text_lines
     [lit ''[YouTube Video: '' @ url @ lit '']'',
      [],
      lit ''Video ID: '' @ or_str vid (lit ''Unknown''),
      [],
      warning_sign @ lit '' Transcript extraction failed: '' @ m,
      [],
      lit ''This video may not have captions available, or they may be auto-generated and restricted. '',
      [],
      lit ''To use this content:'',
      lit ''1. Watch the video and manually add key points below'',
      lit ''2. Or try a different video with available captions'',
      [],
      lit ''Manual Notes Section:'',
      lit ''- [Add main concepts from the video]'',
      lit ''- [Add important explanations]  '',
      lit ''- [Add examples or case studies]'',
      lit ''- [Add any formulas or definitions]'',
      [],
      lit ''This content will be used by the AI to generate study materials.'']"

text \<open>The \<^verbatim>\<open>try\<close> block of \<^verbatim>\<open>extractYouTubeTranscript\<close>: the content, or the error thrown.\<close>

definition transcript_content :: "jsstring \<Rightarrow> transcript_reply \<Rightarrow> extracted_content result" where
  "transcript_content url reply =
     (case extractYouTubeVideoId url of
        None \<Rightarrow> Inl (lit ''Invalid YouTube URL - could not extract video ID'')
      | Some vid \<Rightarrow>
          (case reply of
             TranscriptThrew m \<Rightarrow> Inl m
           | TimedOut \<Rightarrow> Inl (lit ''Transcript fetch timeout after 30 seconds'')
           | Transcript None \<Rightarrow> Inl (lit ''No transcript available for this video'')
           | Transcript (Some segs) \<Rightarrow>
               if length segs = 0 then Inl (lit ''No transcript available for this video'')
               else
                 (let fullText = trim (collapse_ws (remove_bracketed (join [32] segs)))
                  in Inr \<lparr>ec_type = lit ''youtube'', ec_source = lit ''YouTube Video: '' @ vid,
                           extractedText = fullText,
                           ec_metadata =
                             \<lparr>wordCount = split_count fullText, fileType = None,
                              hasTranscript = Some True, extractionError = None,
                              videoId = Some vid, originalUrl = Some url,
                              contentLength = None\<rparr>\<rparr>)))"

text \<open>
  \<^verbatim>\<open>extractYouTubeTranscript\<close>: every error of the \<^verbatim>\<open>try\<close> block, the invalid URL included,
  is caught and answered with the placeholder content.
\<close>

definition extractYouTubeTranscript :: "jsstring \<Rightarrow> transcript_reply \<Rightarrow> extracted_content" where
  "extractYouTubeTranscript url reply =
     (case transcript_content url reply of
        Inr c \<Rightarrow> c
      | Inl m \<Rightarrow>
          (let vid = extractYouTubeVideoId url
           in \<lparr>ec_type = lit ''youtube'',
               ec_source = lit ''YouTube Video: '' @ or_str vid (lit ''Unknown''),
               extractedText = fallbackText url vid m,
               ec_metadata =
                 \<lparr>wordCount = split_count (fallbackText url vid m), fileType = None,
                  hasTranscript = Some False, extractionError = Some m,
                  videoId = Some (or_str vid (lit ''unknown'')), originalUrl = Some url,
                  contentLength = None\<rparr>\<rparr>))"

subsection \<open>Web pages\<close>

text \<open>
  What the platform answers to \<^verbatim>\<open>processWebURL\<close>: the host name when \<^verbatim>\<open>new URL(url)\<close>
  accepts the URL, and the outcome of the fetch through the proxy. For a page that
  arrived, the DOM work (the title and the text of the main content area or of the body)
  is the platform's; its result is an input.
\<close>

record web_page =
  page_title :: "jsstring option"
  page_text :: jsstring

datatype web_reply =
    FetchThrew jsstring
  | HttpStatus nat jsstring
  | BodyThrew jsstring
  | NoContents
  | Page web_page

definition web_processedText :: "jsstring \<Rightarrow> jsstring \<Rightarrow> jsstring \<Rightarrow> jsstring \<Rightarrow> jsstring" where
  "web_processedText title url isoDate extracted = text_lines
     [lit ''[Website: '' @ title @ lit '']'',
      [],
      lit ''URL: '' @ url,
      lit ''Extracted: '' @ isoDate,
      [],
      lit ''Content:'',
      extracted,
      [],
      lit ''This web content should be analyzed for:'',
      lit ''- Key concepts and main ideas'',
      lit ''- Important facts and information'',
      lit ''- Educational content and explanations'',
      lit ''- Structured knowledge and insights'',
      lit ''- Actionable information and examples'']"

text \<open>
  The \<^verbatim>\<open>try\<close> block of \<^verbatim>\<open>processWebURL\<close>. After whitespace is collapsed the text holds no
  line feed, so the second clean-up replacement (\<^verbatim>\<open>/\n\s*\n/g\<close>) finds nothing.
\<close>

definition web_content ::
  "jsstring \<Rightarrow> jsstring option \<Rightarrow> web_reply \<Rightarrow> transcript_reply \<Rightarrow> jsstring
     \<Rightarrow> extracted_content result" where
  "web_content url hostname reply treply isoDate =
     (case hostname of
        None \<Rightarrow> Inl (lit ''Invalid URL format. Please enter a valid website URL.'')
      | Some host \<Rightarrow>
          if includes_str host (lit ''youtube.com'') \<or> includes_str host (lit ''youtu.be'')
          then Inr (extractYouTubeTranscript url treply)
          else
            (case reply of
               FetchThrew m \<Rightarrow>
                 Inl (lit ''Unable to access the website. This may be due to CORS restrictions or the site being unavailable. Error: '' @ m)
             | HttpStatus st statusText \<Rightarrow>
                 Inl (lit ''Unable to access the website. This may be due to CORS restrictions or the site being unavailable. Error: ''
                      @ lit ''Failed to fetch webpage: '' @ show_nat st @ lit '' '' @ statusText)
             | BodyThrew m \<Rightarrow> Inl m
             | NoContents \<Rightarrow> Inl (lit ''No content received from the website.'')
             | Page pg \<Rightarrow>
                 (let title = or_str (map_option trim (page_title pg)) (lit ''Web Page'');
                      extracted = trim (collapse_ws (page_text pg))
                  in if length extracted < 50
                     then Inl (lit ''Unable to extract meaningful content from the webpage. The page may be mostly images, videos, or protected content.'')
                     else Inr \<lparr>ec_type = lit ''web'', ec_source = title,
                              extractedText = web_processedText title url isoDate extracted,
                              ec_metadata =
                                \<lparr>wordCount = split_count extracted, fileType = None,
                                 hasTranscript = None, extractionError = None, videoId = None,
                                 originalUrl = Some url,
                                 contentLength = Some (length extracted)\<rparr>\<rparr>)))"

definition wrap_error :: "jsstring \<Rightarrow> 'a result \<Rightarrow> 'a result" where
  "wrap_error prefix r = (case r of Inl m \<Rightarrow> Inl (prefix @ m) | Inr x \<Rightarrow> Inr x)"

definition fps_processWebURL ::
  "jsstring \<Rightarrow> jsstring option \<Rightarrow> web_reply \<Rightarrow> transcript_reply \<Rightarrow> jsstring
     \<Rightarrow> extracted_content result" where
  "fps_processWebURL url hostname reply treply isoDate =
     wrap_error (lit ''Failed to process website: '') (web_content url hostname reply treply isoDate)"

subsection \<open>Direct text\<close>

definition direct_processedText :: "jsstring \<Rightarrow> jsstring \<Rightarrow> jsstring \<Rightarrow> jsstring" where
  "direct_processedText promptTitle isoDate cleanText = text_lines
     [lit ''[Direct Text Input: '' @ promptTitle @ lit '']'',
      [],
      lit ''Created: '' @ isoDate,
      lit ''Source: User-provided text content'',
      [],
      lit ''Content:'',
      cleanText,
      [],
      lit ''This text content should be analyzed for:'',
      lit ''- Key concepts and main ideas'',
      lit ''- Important information and facts'',
      lit ''- Educational content and explanations'',
      lit ''- Learning objectives and insights'',
      lit ''- Practical applications and examples'']"

definition processDirectText :: "jsstring \<Rightarrow> jsstring \<Rightarrow> jsstring \<Rightarrow> extracted_content result" where
  "processDirectText textContent promptTitle isoDate =
     wrap_error (lit ''Failed to process text input: '')
       (if textContent = [] \<or> length (trim textContent) < 10
        then Inl (lit ''Text input is too short. Please provide at least 10 characters of meaningful content.'')
        else
          (let cleanText = trim textContent
           in Inr \<lparr>ec_type = lit ''direct_text'', ec_source = promptTitle,
                    extractedText = direct_processedText promptTitle isoDate cleanText,
                    ec_metadata =
                      \<lparr>wordCount = split_count cleanText, fileType = None, hasTranscript = None,
                       extractionError = None, videoId = None, originalUrl = None,
                       contentLength = Some (length cleanText)\<rparr>\<rparr>))"


section \<open>The direct-text generation path\<close>

record direct_result =
  dr_content :: extracted_content
  dr_wordCount :: nat
  dr_aiGeneration :: ai_result
  dr_generationId :: uuid

definition wrap_state :: "jsstring \<Rightarrow> db \<times> 'a result \<Rightarrow> db \<times> 'a result" where
  "wrap_state prefix r = (fst r, wrap_error prefix (snd r))"

definition processDirectTextInput ::
  "env \<Rightarrow> db \<Rightarrow> uuid \<Rightarrow> jsstring \<Rightarrow> jsstring \<Rightarrow> db \<times> direct_result result" where
  "processDirectTextInput e d topicId textContent promptTitle =
     (case user e of
        None \<Rightarrow> (d, Inl not_authenticated)
      | Some u \<Rightarrow>
     (case getTopic e d topicId of
        Inl m \<Rightarrow> (d, Inl m)
      | Inr tp \<Rightarrow>
     wrap_state (lit ''Failed to process text input: '')
     (case processDirectText textContent promptTitle (isoNow e) of
        Inl m \<Rightarrow> (d, Inl m)
      | Inr extractedContent \<Rightarrow>
     (case api_key e of
        Inl m \<Rightarrow> (d, Inl m)
      | Inr key \<Rightarrow>
     (case fps_generateAIContent (t_name tp)
             [\<lparr>p_extractedText = Some (extractedText extractedContent), p_content = None\<rparr>]
             key (completion e) of
        Inl m \<Rightarrow> (d, Inl m)
      | Inr aiResult \<Rightarrow>
     (case createGeneration e d topicId (lit ''direct_text'') [] (lit ''processing'') of
        (d1, Inl m) \<Rightarrow> (d1, Inl m)
      | (d1, Inr gen) \<Rightarrow>
     (case addQuestionsWithGeneration e d1 topicId (content aiResult) (g_id gen) [] of
        (d2, Inl m) \<Rightarrow> (d2, Inl m)
      | (d2, Inr qs) \<Rightarrow>
     (case createGenerationItems e d2 (g_id gen) qs [] of
        (d3, Inl m) \<Rightarrow> (d3, Inl m)
      | (d3, Inr gis) \<Rightarrow>
     (case updateGeneration e d3 (g_id gen)
             \<lparr>u_status = Some (lit ''completed''), u_itemsGenerated = Some (generated aiResult),
              u_breakdown = Some (ai_breakdown aiResult), u_completedAt = Some (endTime e),
              u_processingTimeMs = None, u_errorMessage = None\<rparr> of
        (d4, Inl m) \<Rightarrow> (d4, Inl m)
      | (d4, Inr g') \<Rightarrow>
          (d4, Inr \<lparr>dr_content = extractedContent,
                    dr_wordCount = wordCount (ec_metadata extractedContent),
                    dr_aiGeneration = aiResult, dr_generationId = g_id gen\<rparr>))))))))))"

section \<open>The ingestion coordinator\<close>

text \<open>
  The client library answers every request with a data/error pair and does not throw.
  A request of the bucket that is answered with an error leaves the bucket as it was.
\<close>

definition storage_upload :: "env \<Rightarrow> db \<Rightarrow> jsstring \<Rightarrow> db \<times> store_error option" where
  "storage_upload e d path =
     (case fails e StorageUpload of
        Some err \<Rightarrow> (d, Some err)
      | None \<Rightarrow> (d\<lparr>blobs := blobs d @ [path]\<rparr>, None))"

text \<open>\<^verbatim>\<open>storage.from('documents').remove([path])\<close>; the callers drop its answer.\<close>

definition storage_remove :: "env \<Rightarrow> db \<Rightarrow> jsstring \<Rightarrow> db" where
  "storage_remove e d path =
     (case fails e StorageRemove of
        Some err \<Rightarrow> d
      | None \<Rightarrow> d\<lparr>blobs := filter (\<lambda>p. p \<noteq> path) (blobs d)\<rparr>)"

text \<open>The database function \<^verbatim>\<open>simple_insert_document\<close>; \<^verbatim>\<open>auth.uid()\<close> is the caller.\<close>

definition simple_insert_document ::
  "env \<Rightarrow> db \<Rightarrow> uuid \<Rightarrow> jsstring \<Rightarrow> nat \<Rightarrow> jsstring \<Rightarrow> jsstring option
     \<Rightarrow> db \<times> (store_error + uuid)" where
  "simple_insert_document e d p_topic_id p_title p_file_size p_file_type p_storage_path =
     (case fails e RpcInsertDocument of
        Some err \<Rightarrow> (d, Inl err)
      | None \<Rightarrow>
          (d\<lparr>documents := documents d @
                [\<lparr>d_id = next_uuid d, d_topic_id = p_topic_id, d_user_id = user e,
                  filename = p_title, storage_path = p_storage_path,
                  d_file_type = p_file_type, d_file_size = p_file_size\<rparr>],
             next_uuid := Suc (next_uuid d)\<rparr>,
           Inr (next_uuid d)))"





subsection \<open>Pasted text\<close>


subsection \<open>Uploaded files\<close>

record upload_file =
  f_name :: jsstring
  f_size :: nat
  f_type :: jsstring

text \<open>
  The answers of \<^verbatim>\<open>supabase.auth.getUser()\<close> inside the retry loop of \<^verbatim>\<open>uploadFile\<close>, by
  attempt: an authentication error, or a user that may be null.
\<close>

datatype auth_reply = AuthError | SignedIn "uuid option"

text \<open>
  The loop: at most three attempts, one second apart. It is entered with \<open>retryCount = 0\<close>
  and leaves with a user or throws at the third failure; the last branch (the loop
  condition false with no user) is not reached from there.
\<close>

function auth_retry :: "(nat \<Rightarrow> auth_reply) \<Rightarrow> nat \<Rightarrow> uuid result" where
  "auth_retry replies retryCount =
     (if retryCount < 3
      then (case replies retryCount of
              AuthError \<Rightarrow>
                if Suc retryCount \<ge> 3
                then Inl (lit ''Authentication failed after multiple attempts. Please sign out and sign back in.'')
                else auth_retry replies (Suc retryCount)
            | SignedIn None \<Rightarrow>
                if Suc retryCount \<ge> 3
                then Inl (lit ''User not authenticated. Please sign in first.'')
                else auth_retry replies (Suc retryCount)
            | SignedIn (Some u) \<Rightarrow> Inr u)
      else Inl (lit ''Cannot read properties of null (reading id)''))"
  by pat_completeness auto
termination
  by (relation "measure (\<lambda>(replies, retryCount). 3 - retryCount)") auto

declare auth_retry.simps [simp del]

text \<open>\<^verbatim>\<open>name.replace(/[^a-zA-Z0-9.-]/g, '_')\<close>\<close>

definition sanitize_name :: "jsstring \<Rightarrow> jsstring" where
  "sanitize_name n =
     map (\<lambda>c. if (97 \<le> c \<and> c \<le> 122) \<or> (65 \<le> c \<and> c \<le> 90) \<or> (48 \<le> c \<and> c \<le> 57) \<or> c = 46 \<or> c = 45
               then c else 95) n"

record upload_result =
  ur_documentId :: uuid
  ur_storagePath :: jsstring

text \<open>
  \<^verbatim>\<open>uploadFile\<close>. An identifier is written into the path by its number. The signed URL of
  the result is the bucket's and is left out. When the insert is answered with an error
  the blob is removed in the \<^verbatim>\<open>if\<close>, the error is thrown, and the \<^verbatim>\<open>catch\<close> around it removes
  the blob again and rethrows.
\<close>

definition upload_path :: "env \<Rightarrow> uuid \<Rightarrow> uuid \<Rightarrow> upload_file \<Rightarrow> jsstring" where
  "upload_path e topicId u f =
     show_nat topicId @ lit ''/'' @ show_nat u @ lit ''/''
     @ show_nat (nat (startTime e)) @ lit ''_'' @ sanitize_name (f_name f)"

definition uploadFile ::
  "env \<Rightarrow> db \<Rightarrow> (nat \<Rightarrow> auth_reply) \<Rightarrow> uuid \<Rightarrow> upload_file \<Rightarrow> db \<times> upload_result result" where
  "uploadFile e d replies topicId f =
     (case auth_retry replies 0 of
        Inl m \<Rightarrow> (d, Inl m)
      | Inr u \<Rightarrow>
     (let filePath = upload_path e topicId u f
      in
     (case storage_upload e d filePath of
        (d1, Some err) \<Rightarrow> (d1, Inl (lit ''Failed to upload file: '' @ message err))
      | (d1, None) \<Rightarrow>
     (case simple_insert_document e d1 topicId (f_name f) (f_size f) (f_type f) (Some filePath) of
        (d2, Inl bypassError) \<Rightarrow>
          (storage_remove e (storage_remove e d2 filePath) filePath,
           Inl (lit ''Failed to save document: '' @ message bypassError))
      | (d2, Inr docId) \<Rightarrow>
          (d2, Inr \<lparr>ur_documentId = docId, ur_storagePath = filePath\<rparr>)))))"


subsection \<open>Video URLs\<close>







section \<open>Flashcard review\<close>

text \<open>
  JavaScript numbers are IEEE 754 doubles. A finite double is held as the rational it
  denotes. The result of an arithmetic operation is the exact result rounded to the nearest
  double, ties to the even significand; a result beyond the largest double is not finite,
  which is \<open>None\<close> here.

  For a positive \<open>x\<close>, \<open>binary_exponent x\<close> is the \<open>e\<close> with \<open>pow2 e \<le> x\<close> and
  \<open>x < pow2 (e + 1)\<close>. A double has 53 significant bits from the exponent \<open>- 1022\<close> upwards
  and the spacing \<open>pow2 (- 1074)\<close> below it.
\<close>

function halvings :: "rat \<Rightarrow> nat" where
  "halvings x = (if 2 \<le> x then Suc (halvings (x / 2)) else 0)"
  by pat_completeness auto
termination
proof (relation "measure (\<lambda>x. nat \<lfloor>x\<rfloor>)")
  show "wf (measure (\<lambda>x::rat. nat \<lfloor>x\<rfloor>))" by simp
next
  fix x :: rat
  assume x: "2 \<le> x"
  have "x / 2 \<le> x - 1" using x by simp
  then have "\<lfloor>x / 2\<rfloor> \<le> \<lfloor>x - 1\<rfloor>" by (rule floor_mono)
  then have "\<lfloor>x / 2\<rfloor> < \<lfloor>x\<rfloor>" by simp
  moreover have "0 < \<lfloor>x\<rfloor>" using x by simp
  ultimately show "(x / 2, x) \<in> measure (\<lambda>x. nat \<lfloor>x\<rfloor>)" by simp
qed

function doublings :: "rat \<Rightarrow> nat" where
  "doublings x = (if 0 < x \<and> x < 1 then Suc (doublings (2 * x)) else 0)"
  by pat_completeness auto
termination
proof (relation "measure (\<lambda>x. nat \<lfloor>1 / x\<rfloor>)")
  show "wf (measure (\<lambda>x::rat. nat \<lfloor>1 / x\<rfloor>))" by simp
next
  fix x :: rat
  assume x: "0 < x \<and> x < 1"
  let ?y = "1 / x"
  have y: "1 < ?y" using x by simp
  then have n: "1 \<le> \<lfloor>?y\<rfloor>" by simp
  have "?y < of_int (\<lfloor>?y\<rfloor> + 1)" by linarith
  then have "?y / 2 < of_int (\<lfloor>?y\<rfloor> + 1) / 2" by simp
  also have "\<dots> \<le> of_int \<lfloor>?y\<rfloor>" using n by simp
  finally have "\<lfloor>?y / 2\<rfloor> < \<lfloor>?y\<rfloor>" by (simp add: floor_less_iff)
  moreover have "1 / (2 * x) = ?y / 2" by simp
  ultimately have "\<lfloor>1 / (2 * x)\<rfloor> < \<lfloor>1 / x\<rfloor>" by (simp only:)
  then show "(2 * x, x) \<in> measure (\<lambda>x. nat \<lfloor>1 / x\<rfloor>)" using n by simp
qed

declare halvings.simps [simp del] doublings.simps [simp del]

definition binary_exponent :: "rat \<Rightarrow> int" where
  "binary_exponent x = (if 1 \<le> x then int (halvings x) else - int (doublings x))"

definition pow2 :: "int \<Rightarrow> rat" where
  "pow2 k = (if 0 \<le> k then 2 ^ nat k else 1 / 2 ^ nat (- k))"

definition round_even :: "rat \<Rightarrow> int" where
  "round_even x =
     (let f = \<lfloor>x\<rfloor>; r = x - of_int f
      in if r < 1 / 2 then f else if 1 / 2 < r then f + 1 else if even f then f else f + 1)"

definition to_double :: "rat \<Rightarrow> rat option" where
  "to_double x =
     (let e = max (binary_exponent \<bar>x\<bar>) (- 1022);
          q = pow2 (e - 52);
          y = of_int (round_even (\<bar>x\<bar> / q)) * q
      in if pow2 1024 \<le> y then None else Some (sgn x * y))"

text \<open>\<^verbatim>\<open>x * y\<close> on two finite doubles.\<close>

definition js_times :: "rat \<Rightarrow> rat \<Rightarrow> rat option" where
  "js_times x y = to_double (x * y)"

text \<open>\<^verbatim>\<open>Math.round\<close> of a finite double: the nearest integer, halves rounded up.\<close>

definition math_round :: "rat \<Rightarrow> int" where
  "math_round x = \<lfloor>x + 1 / 2\<rfloor>"

definition ms_per_day :: int where
  "ms_per_day = 86400000"

text \<open>
  A \<^verbatim>\<open>Date\<close> holds a time value of at most 8.64e15 milliseconds on either side of the
  epoch; a date set beyond that is invalid. \<^verbatim>\<open>date.setDate(date.getDate() + n)\<close> moves
  the date by \<open>n\<close> days, taking the zone of the clock to be UTC. Inside the range every
  number involved is an integer below \<open>pow2 53\<close>, so the arithmetic of the doubles is exact
  there, and a sum or product that is rounded lies outside the range before and after the
  rounding.
\<close>

definition max_time :: int where
  "max_time = 8640000000000000"

definition set_date :: "int \<Rightarrow> int \<Rightarrow> int option" where
  "set_date now n =
     (let t = now + n * ms_per_day in if \<bar>t\<bar> \<le> max_time then Some t else None)"

text \<open>
  The \<^verbatim>\<open>RangeError\<close> with which \<^verbatim>\<open>toISOString\<close> answers on an invalid date. The message is
  the engine's (here the one of V8); no statement below reads it.
\<close>

definition invalid_time_value :: jsstring where
  "invalid_time_value = lit ''Invalid time value''"

text \<open>
  \<^verbatim>\<open>updateFlashcardProgress\<close>. The error of the first query is dropped, so a failed query
  reads as no progress yet. An interval that is not finite rounds to itself and makes the
  date invalid. The row is built before the request is sent: \<^verbatim>\<open>nextReview.toISOString()\<close>
  throws on an invalid date, and then no request is sent.
\<close>

definition updateFlashcardProgress :: "env \<Rightarrow> db \<Rightarrow> uuid \<Rightarrow> bool \<Rightarrow> db \<times> unit result" where
  "updateFlashcardProgress e d questionId known =
     (case user e of
        None \<Rightarrow> (d, Inl not_authenticated)
      | Some u \<Rightarrow>
          (let matching = (\<lambda>r. fp_question_id r = questionId \<and> fp_user_id r = u);
               existing = (case fails e SelectFlashcardProgress of
                             Some err \<Rightarrow> None
                           | None \<Rightarrow>
                               (case filter matching (flashcard_progress_rows d) of
                                  [r] \<Rightarrow> Some r
                                | _ \<Rightarrow> None));
               reviews' = (case existing of Some r \<Rightarrow> reviews r + 1 | None \<Rightarrow> 1);
               interval' = (case existing of
                              Some r \<Rightarrow> if known then js_times (interval r) 2.5 else Some 1
                            | None \<Rightarrow> Some 1);
               nextReview = (case interval' of
                               None \<Rightarrow> None
                             | Some i \<Rightarrow> set_date (startTime e) (math_round i))
           in case (interval', nextReview) of
                (Some i, Some nr) \<Rightarrow>
                  (let row = \<lparr>fp_question_id = questionId, fp_user_id = u, reviews = reviews',
                              last_review = startTime e, next_review = nr, interval = i\<rparr>
                   in case fails e UpsertFlashcardProgress of
                        Some err \<Rightarrow> (d, Inl (message err))
                      | None \<Rightarrow>
                          (d\<lparr>flashcard_progress_rows :=
                               (if \<exists>r \<in> set (flashcard_progress_rows d). matching r
                                then map (\<lambda>r. if matching r then row else r)
                                       (flashcard_progress_rows d)
                                else flashcard_progress_rows d @ [row])\<rparr>,
                           Inr ()))
              | _ \<Rightarrow> (d, Inl invalid_time_value)))"

section \<open>Concrete inputs\<close>

text \<open>
  Inputs on which the theorems below are evaluated: an environment in which a user is
  signed in and every request is carried out, and small states of the store.
\<close>

definition no_faults :: "store_call \<Rightarrow> store_error option" where
  "no_faults c = None"

definition empty_content :: generated_content where
  "empty_content = \<lparr>flashcards = Some [], multipleChoice = Some [], openEnded = Some [], summaries = Some []\<rparr>"

definition env_ok :: env where
  "env_ok = \<lparr>user = Some 1, apiKey = Some (lit ''sk-test''), fails = no_faults,
             completion = Parsed empty_content, startTime = 1000, endTime = 1500,
             isoNow = lit ''2025-06-28T12:00:00.000Z''\<rparr>"

definition db_empty :: db where
  "db_empty = \<lparr>topics = [\<lparr>t_id = 10, t_user_id = 1, t_name = lit ''Biology''\<rparr>], documents = [],
      knowledge_base = [], sources = [], generations = [], questions = [], generation_items = [],
      flashcard_progress_rows = [], blobs = [], next_uuid = 100\<rparr>"

definition db_flash :: db where
  "db_flash = db_empty\<lparr>flashcard_progress_rows :=
      [\<lparr>fp_question_id = 7, fp_user_id = 1, reviews = 1, last_review = 0, next_review = 86400000,
        interval = 1\<rparr>]\<rparr>"

text \<open>A card whose interval has been multiplied by 2.5 twenty times.\<close>

definition db_ripe :: db where
  "db_ripe = db_empty\<lparr>flashcard_progress_rows :=
      [\<lparr>fp_question_id = 7, fp_user_id = 1, reviews = 21, last_review = 0, next_review = 86400000,
        interval = 95367431640625 / 1048576\<rparr>]\<rparr>"










text \<open>A reply of the transcript provider that carries no segment.\<close>

definition transcript_absent :: "transcript_reply \<Rightarrow> bool" where
  "transcript_absent reply =
     (case reply of Transcript (Some segs) \<Rightarrow> segs = [] | _ \<Rightarrow> True)"

section \<open>Notions used in the statements\<close>

text \<open>The ids of the sources a topic owns, for the signed-in user.\<close>

definition topic_source_ids :: "db \<Rightarrow> uuid \<Rightarrow> uuid \<Rightarrow> uuid list" where
  "topic_source_ids d u topicId =
     map s_id (filter (\<lambda>s. s_topic_id s = topicId \<and> s_user_id s = u) (sources d))"

text \<open>
  Identifiers are fresh: every generation and every reference to a generation carries an
  identifier the database has already handed out.
\<close>

definition well_formed :: "db \<Rightarrow> bool" where
  "well_formed d \<longleftrightarrow>
     (\<forall>g \<in> set (generations d). g_id g < next_uuid d)
     \<and> (\<forall>i \<in> set (generation_items d). gi_generation_id i < next_uuid d)"

text \<open>
  Attribution containment: the sources of every generation item are among the sources of
  the generation it belongs to.
\<close>

definition attribution_ok :: "db \<Rightarrow> bool" where
  "attribution_ok d \<longleftrightarrow>
     (\<forall>i \<in> set (generation_items d). \<forall>g \<in> set (generations d).
        gi_generation_id i = g_id g \<longrightarrow> set (derived_from_sources i) \<subseteq> set (source_ids g))"

text \<open>
  What a generation run that created its Generation leaves in the store: one more
  generation, with the next identifier and the given source ids, and behind the rows that
  were there, questions and generation items that name this generation and carry the same
  source ids. \<open>outcome\<close> is the number of items of a run that succeeded, and nothing for
  a run that failed.
\<close>

definition generation_recorded ::
  "db \<Rightarrow> db \<Rightarrow> uuid \<Rightarrow> uuid \<Rightarrow> uuid list \<Rightarrow> nat option \<Rightarrow> bool" where
  "generation_recorded d d' u topicId sids outcome \<longleftrightarrow>
     (\<exists>g qs its.
        generations d' = generations d @ [g] \<and> g_id g = next_uuid d \<and> source_ids g = sids
        \<and> g_user_id g = u
        \<and> questions d' = questions d @ qs
        \<and> (\<forall>q \<in> set qs. q_generation_id q = Some (next_uuid d) \<and> source_attribution q = Some sids
                        \<and> q_topic_id q = topicId \<and> q_user_id q = u)
        \<and> generation_items d' = generation_items d @ its
        \<and> (\<forall>i \<in> set its. gi_generation_id i = next_uuid d \<and> derived_from_sources i = sids)
        \<and> next_uuid d < next_uuid d'
        \<and> (case outcome of
              Some n \<Rightarrow> length qs = n \<and> status g = lit ''completed'' \<and> items_generated g = n
            | None \<Rightarrow> status g = lit ''processing'' \<or> status g = lit ''failed''))"

text \<open>The rows a call added to a table: those behind the rows that were there.\<close>

definition new_rows :: "'a list \<Rightarrow> 'a list \<Rightarrow> 'a list" where
  "new_rows before after = drop (length before) after"

section \<open>A topic with sources\<close>

text \<open>
  Topic 10 of user 1 owns the sources 20, 21 and 22; source 23 belongs to topic 11. The
  completion service answers with one flashcard and one multiple-choice item.
\<close>

definition kb_meta :: metadata where
  "kb_meta = \<lparr>wordCount = 2, fileType = Some (lit ''text/plain''), hasTranscript = None,
              extractionError = None, videoId = None, originalUrl = None,
              contentLength = None\<rparr>"

definition source_row :: "uuid \<Rightarrow> uuid \<Rightarrow> uuid \<Rightarrow> source" where
  "source_row i topicId doc =
     \<lparr>s_id = i, s_topic_id = topicId, s_user_id = 1, s_document_id = Some doc,
      source_type = lit ''file'', source_name = lit ''notes.txt'', original_name = None,
      s_file_type = Some (lit ''text/plain''), s_file_size = Some 13, word_count = Some 2,
      s_metadata = kb_meta, knowledge_base_id = None\<rparr>"

definition kb_row :: "uuid \<Rightarrow> uuid \<Rightarrow> uuid \<Rightarrow> knowledge_base_entry" where
  "kb_row i topicId doc =
     \<lparr>kb_id = i, kb_topic_id = topicId, kb_user_id = 1, kb_document_id = Some doc,
      kb_type = lit ''document'', kb_source = lit ''notes.txt'', kb_content = lit ''Cells divide.'',
      kb_metadata = kb_meta\<rparr>"

definition db_sources :: db where
  "db_sources =
     \<lparr>topics = [\<lparr>t_id = 10, t_user_id = 1, t_name = lit ''Biology''\<rparr>,
                 \<lparr>t_id = 11, t_user_id = 1, t_name = lit ''History''\<rparr>],
      documents = [],
      knowledge_base = [kb_row 40 10 30, kb_row 41 10 31, kb_row 42 10 32, kb_row 43 11 33],
      sources = [source_row 20 10 30, source_row 21 10 31, source_row 22 10 32,
                 source_row 23 11 33],
      generations = [], questions = [], generation_items = [],
      flashcard_progress_rows = [], blobs = [], next_uuid = 100\<rparr>"

definition card :: study_item where
  "card = \<lparr>i_type = lit ''flashcard'', i_front = Some (lit ''What do cells do?''),
           i_question = None, i_title = None, i_difficulty = Some (lit ''easy''),
           i_payload = lit ''They divide.''\<rparr>"

definition choice :: study_item where
  "choice = \<lparr>i_type = lit ''multiple-choice'', i_front = None,
             i_question = Some (lit ''Which of these divide?''), i_title = None,
             i_difficulty = None, i_payload = lit ''Cells''\<rparr>"

definition two_items :: generated_content where
  "two_items = \<lparr>flashcards = Some [card], multipleChoice = Some [choice], openEnded = None,
                summaries = None\<rparr>"

definition env_gen :: env where
  "env_gen = env_ok\<lparr>completion := Parsed two_items\<rparr>"

text \<open>
  Exact attribution of what a call added: every new generation item and every new
  question names a generation the call created and carries that generation's source ids,
  and the call created at most one generation.
\<close>

definition exact_attribution :: "db \<Rightarrow> db \<Rightarrow> bool" where
  "exact_attribution d d' \<longleftrightarrow>
     (\<forall>i \<in> set (new_rows (generation_items d) (generation_items d')).
        \<exists>g \<in> set (new_rows (generations d) (generations d')).
          gi_generation_id i = g_id g \<and> derived_from_sources i = source_ids g)
     \<and> (\<forall>q \<in> set (new_rows (questions d) (questions d')).
          \<exists>g \<in> set (new_rows (generations d) (generations d')).
            q_generation_id q = Some (g_id g) \<and> source_attribution q = Some (source_ids g))
     \<and> length (new_rows (generations d) (generations d')) \<le> 1"

definition cells_piece :: content_piece where
  "cells_piece = \<lparr>p_extractedText = None, p_content = Some (lit ''Cells divide.'')\<rparr>"

section \<open>A store with a finished generation\<close>








text \<open>The store after a first selective run on the topic.\<close>

definition db_after :: db where
  "db_after = fst (generateAIContentFromSources env_gen db_sources 10 [20, 21, 23])"

section \<open>A store that refuses the document\<close>





section \<open>Word counts and tokens\<close>



section \<open>Flashcard review intervals\<close>

lemma filter_replace:
  "P row \<Longrightarrow> filter P (map (\<lambda>r. if P r then row else r) xs) = map (\<lambda>r. row) (filter P xs)"
  by (induction xs) auto

lemmas double_defs = js_times_def to_double_def binary_exponent_def pow2_def round_even_def
  halvings.simps doublings.simps Let_def

lemma floor_rat_numeral:
  "\<lfloor>numeral a / numeral b :: rat\<rfloor> = numeral a div numeral b"
  by (metis floor_divide_of_int_eq of_int_numeral)

lemma times_exact_cases:
    "js_times ((5 / 2) ^ 0) 2.5 = Some ((5 / 2) ^ Suc 0)"
    "js_times ((5 / 2) ^ 1) 2.5 = Some ((5 / 2) ^ Suc 1)"
    "js_times ((5 / 2) ^ 2) 2.5 = Some ((5 / 2) ^ Suc 2)"
    "js_times ((5 / 2) ^ 3) 2.5 = Some ((5 / 2) ^ Suc 3)"
    "js_times ((5 / 2) ^ 4) 2.5 = Some ((5 / 2) ^ Suc 4)"
    "js_times ((5 / 2) ^ 5) 2.5 = Some ((5 / 2) ^ Suc 5)"
    "js_times ((5 / 2) ^ 6) 2.5 = Some ((5 / 2) ^ Suc 6)"
    "js_times ((5 / 2) ^ 7) 2.5 = Some ((5 / 2) ^ Suc 7)"
    "js_times ((5 / 2) ^ 8) 2.5 = Some ((5 / 2) ^ Suc 8)"
    "js_times ((5 / 2) ^ 9) 2.5 = Some ((5 / 2) ^ Suc 9)"
    "js_times ((5 / 2) ^ 10) 2.5 = Some ((5 / 2) ^ Suc 10)"
    "js_times ((5 / 2) ^ 11) 2.5 = Some ((5 / 2) ^ Suc 11)"
    "js_times ((5 / 2) ^ 12) 2.5 = Some ((5 / 2) ^ Suc 12)"
    "js_times ((5 / 2) ^ 13) 2.5 = Some ((5 / 2) ^ Suc 13)"
    "js_times ((5 / 2) ^ 14) 2.5 = Some ((5 / 2) ^ Suc 14)"
    "js_times ((5 / 2) ^ 15) 2.5 = Some ((5 / 2) ^ Suc 15)"
    "js_times ((5 / 2) ^ 16) 2.5 = Some ((5 / 2) ^ Suc 16)"
    "js_times ((5 / 2) ^ 17) 2.5 = Some ((5 / 2) ^ Suc 17)"
    "js_times ((5 / 2) ^ 18) 2.5 = Some ((5 / 2) ^ Suc 18)"
    "js_times ((5 / 2) ^ 19) 2.5 = Some ((5 / 2) ^ Suc 19)"
    "js_times ((5 / 2) ^ 20) 2.5 = Some ((5 / 2) ^ Suc 20)"
    "js_times ((5 / 2) ^ 21) 2.5 = Some ((5 / 2) ^ Suc 21)"
  by (simp_all add: double_defs power_divide)

lemma times_exact:
  assumes "k < 22"
  shows "js_times ((5 / 2) ^ k) 2.5 = Some ((5 / 2) ^ Suc k)"
proof -
  from assms
  have "k \<in> {0, 1, 2, 3, 4, 5, 6, 7, 8, 9, 10, 11, 12, 13, 14, 15, 16, 17, 18, 19, 20, 21 :: nat}"
    by simp arith
  then show ?thesis
    by (elim insertE emptyE) (simp_all only: times_exact_cases)
qed

text \<open>What a review stores, for a signed-in user, by the row it finds.\<close>

lemma review_found:
  assumes u: "user e = Some u" and s: "fails e SelectFlashcardProgress = None"
    and one: "filter (\<lambda>r. fp_question_id r = q \<and> fp_user_id r = u) (flashcard_progress_rows d) = [r]"
  shows "updateFlashcardProgress e d q known =
     (case (if known then js_times (interval r) 2.5 else Some 1) of
        None \<Rightarrow> (d, Inl invalid_time_value)
      | Some i \<Rightarrow>
          (case set_date (startTime e) (math_round i) of
             None \<Rightarrow> (d, Inl invalid_time_value)
           | Some nr \<Rightarrow>
               (case fails e UpsertFlashcardProgress of
                  Some err \<Rightarrow> (d, Inl (message err))
                | None \<Rightarrow>
                    (d\<lparr>flashcard_progress_rows :=
                        map (\<lambda>x. if fp_question_id x = q \<and> fp_user_id x = u
                                  then \<lparr>fp_question_id = q, fp_user_id = u, reviews = reviews r + 1,
                                        last_review = startTime e, next_review = nr, interval = i\<rparr>
                                  else x) (flashcard_progress_rows d)\<rparr>,
                     Inr ()))))"
proof -
  have ex: "\<exists>x \<in> set (flashcard_progress_rows d). fp_question_id x = q \<and> fp_user_id x = u"
    using one by (metis (mono_tags, lifting) filter_False list.distinct(1))
  show ?thesis using u s one ex
    by (simp add: updateFlashcardProgress_def Let_def split: option.splits)
qed

lemma review_first:
  assumes u: "user e = Some u"
    and none: "fails e SelectFlashcardProgress \<noteq> None
       \<or> filter (\<lambda>r. fp_question_id r = q \<and> fp_user_id r = u) (flashcard_progress_rows d) = []"
  shows "updateFlashcardProgress e d q known =
     (case set_date (startTime e) 1 of
        None \<Rightarrow> (d, Inl invalid_time_value)
      | Some nr \<Rightarrow>
          (case fails e UpsertFlashcardProgress of
             Some err \<Rightarrow> (d, Inl (message err))
           | None \<Rightarrow>
               (d\<lparr>flashcard_progress_rows :=
                   (if \<exists>x \<in> set (flashcard_progress_rows d). fp_question_id x = q \<and> fp_user_id x = u
                    then map (\<lambda>x. if fp_question_id x = q \<and> fp_user_id x = u
                                  then \<lparr>fp_question_id = q, fp_user_id = u, reviews = 1,
                                        last_review = startTime e, next_review = nr, interval = 1\<rparr>
                                  else x) (flashcard_progress_rows d)
                    else flashcard_progress_rows d @
                           [\<lparr>fp_question_id = q, fp_user_id = u, reviews = 1,
                             last_review = startTime e, next_review = nr, interval = 1\<rparr>])\<rparr>,
                Inr ())))"
proof -
  have r1: "math_round 1 = 1" by (simp add: math_round_def floor_rat_numeral)
  from none show ?thesis
  proof
    assume "fails e SelectFlashcardProgress \<noteq> None"
    then show ?thesis using u
      by (auto simp: updateFlashcardProgress_def Let_def r1 split: option.splits)
  next
    assume "filter (\<lambda>r. fp_question_id r = q \<and> fp_user_id r = u) (flashcard_progress_rows d) = []"
    then show ?thesis using u
      by (auto simp: updateFlashcardProgress_def Let_def r1 split: option.splits)
  qed
qed

lemma review_failed_keeps:
  assumes "snd (updateFlashcardProgress e d q known) = Inl m"
  shows "fst (updateFlashcardProgress e d q known) = d"
proof (cases "user e")
  case None
  then show ?thesis by (simp add: updateFlashcardProgress_def)
next
  case (Some u)
  define ex where "ex = (case fails e SelectFlashcardProgress of
                             Some err \<Rightarrow> None
                           | None \<Rightarrow>
                               (case filter (\<lambda>r. fp_question_id r = q \<and> fp_user_id r = u)
                                       (flashcard_progress_rows d) of
                                  [r] \<Rightarrow> Some r
                                | _ \<Rightarrow> None))"
  define iv where "iv = (case ex of
                              Some r \<Rightarrow> if known then js_times (interval r) 2.5 else Some 1
                            | None \<Rightarrow> Some 1)"
  define nx where "nx = (case iv of
                               None \<Rightarrow> None
                             | Some i \<Rightarrow> set_date (startTime e) (math_round i))"
  have R: "updateFlashcardProgress e d q known =
     (case (iv, nx) of
                (Some i, Some nr) \<Rightarrow>
                  (let row = \<lparr>fp_question_id = q, fp_user_id = u,
                              reviews = (case ex of Some r \<Rightarrow> reviews r + 1 | None \<Rightarrow> 1),
                              last_review = startTime e, next_review = nr, interval = i\<rparr>
                   in case fails e UpsertFlashcardProgress of
                        Some err \<Rightarrow> (d, Inl (message err))
                      | None \<Rightarrow>
                          (d\<lparr>flashcard_progress_rows :=
                               (if \<exists>r \<in> set (flashcard_progress_rows d).
                                     fp_question_id r = q \<and> fp_user_id r = u
                                then map (\<lambda>r. if fp_question_id r = q \<and> fp_user_id r = u
                                               then row else r)
                                       (flashcard_progress_rows d)
                                else flashcard_progress_rows d @ [row])\<rparr>,
                           Inr ()))
              | _ \<Rightarrow> (d, Inl invalid_time_value))"
    unfolding updateFlashcardProgress_def Let_def ex_def iv_def nx_def
    by (simp only: Some option.case)
  show ?thesis using assms unfolding R
    by (cases iv; cases nx; cases "fails e UpsertFlashcardProgress"; simp add: Let_def)
qed

text \<open>
  Claim C9, as amended, for a signed-in user. A review is stored when the date of the next
  review, the time of the call plus the rounded interval in days, is a valid date and the
  store accepts the row; a review that is not stored fails and leaves the table as it was.
  When the flashcard has a progress row and the lookup of that row succeeds, a stored
  review marked known multiplies the interval by 2.5 in double arithmetic (it does not
  double it), and one marked not known resets it to 1 day. The first review of a
  flashcard, and a review whose lookup of the row fails, set the interval to 1 day
  whatever the answer. The product with 2.5 is exact on the intervals \<open>(5 / 2) ^ k\<close>
  that the service produces from 1. A review marked known fails when the product is not
  finite or the date it gives is invalid; so does any review the store refuses or whose
  date a day ahead is invalid.
\<close>

theorem flashcard_interval_policy:
  assumes u: "user e = Some u"
  shows
   "(filter (\<lambda>r. fp_question_id r = q \<and> fp_user_id r = u) (flashcard_progress_rows d) = [r]
       \<and> fails e SelectFlashcardProgress = None \<and> known
       \<and> js_times (interval r) 2.5 = Some i
       \<and> \<bar>startTime e + math_round i * ms_per_day\<bar> \<le> max_time
       \<and> fails e UpsertFlashcardProgress = None \<longrightarrow>
         snd (updateFlashcardProgress e d q known) = Inr ()
         \<and> map interval (filter (\<lambda>r. fp_question_id r = q \<and> fp_user_id r = u)
              (flashcard_progress_rows (fst (updateFlashcardProgress e d q known)))) = [i])
    \<and> (filter (\<lambda>r. fp_question_id r = q \<and> fp_user_id r = u) (flashcard_progress_rows d) = [r]
       \<and> fails e SelectFlashcardProgress = None \<and> known
       \<and> (js_times (interval r) 2.5 = None
            \<or> js_times (interval r) 2.5 = Some i
               \<and> max_time < \<bar>startTime e + math_round i * ms_per_day\<bar>) \<longrightarrow>
         (\<exists>m. snd (updateFlashcardProgress e d q known) = Inl m))
    \<and> (k < 22 \<longrightarrow> js_times ((5 / 2) ^ k) 2.5 = Some ((5 / 2) ^ Suc k))
    \<and> (filter (\<lambda>r. fp_question_id r = q \<and> fp_user_id r = u) (flashcard_progress_rows d) = [r]
       \<and> fails e SelectFlashcardProgress = None \<and> \<not> known
       \<and> \<bar>startTime e + ms_per_day\<bar> \<le> max_time
       \<and> fails e UpsertFlashcardProgress = None \<longrightarrow>
         snd (updateFlashcardProgress e d q known) = Inr ()
         \<and> map interval (filter (\<lambda>r. fp_question_id r = q \<and> fp_user_id r = u)
              (flashcard_progress_rows (fst (updateFlashcardProgress e d q known)))) = [1])
    \<and> ((filter (\<lambda>r. fp_question_id r = q \<and> fp_user_id r = u) (flashcard_progress_rows d) = []
        \<or> filter (\<lambda>r. fp_question_id r = q \<and> fp_user_id r = u) (flashcard_progress_rows d) = [r]
           \<and> fails e SelectFlashcardProgress \<noteq> None)
       \<and> \<bar>startTime e + ms_per_day\<bar> \<le> max_time
       \<and> fails e UpsertFlashcardProgress = None \<longrightarrow>
         snd (updateFlashcardProgress e d q known) = Inr ()
         \<and> map interval (filter (\<lambda>r. fp_question_id r = q \<and> fp_user_id r = u)
              (flashcard_progress_rows (fst (updateFlashcardProgress e d q known)))) = [1])
    \<and> (fails e UpsertFlashcardProgress \<noteq> None
        \<or> (\<not> known \<or> fails e SelectFlashcardProgress \<noteq> None
             \<or> filter (\<lambda>r. fp_question_id r = q \<and> fp_user_id r = u) (flashcard_progress_rows d) = [])
           \<and> max_time < \<bar>startTime e + ms_per_day\<bar> \<longrightarrow>
         (\<exists>m. snd (updateFlashcardProgress e d q known) = Inl m))
    \<and> (snd (updateFlashcardProgress e d q known) = Inl m \<longrightarrow>
         fst (updateFlashcardProgress e d q known) = d)"
proof -
  let ?M = "\<lambda>r. fp_question_id r = q \<and> fp_user_id r = u"
  let ?R = "updateFlashcardProgress e d q known"
  have r1: "math_round 1 = 1" by (simp add: math_round_def floor_rat_numeral)
  have 1: "filter ?M (flashcard_progress_rows d) = [r]
       \<and> fails e SelectFlashcardProgress = None \<and> known
       \<and> js_times (interval r) 2.5 = Some i
       \<and> \<bar>startTime e + math_round i * ms_per_day\<bar> \<le> max_time
       \<and> fails e UpsertFlashcardProgress = None \<longrightarrow>
         snd ?R = Inr () \<and> map interval (filter ?M (flashcard_progress_rows (fst ?R))) = [i]"
  proof
    assume a: "filter ?M (flashcard_progress_rows d) = [r]
       \<and> fails e SelectFlashcardProgress = None \<and> known
       \<and> js_times (interval r) 2.5 = Some i
       \<and> \<bar>startTime e + math_round i * ms_per_day\<bar> \<le> max_time
       \<and> fails e UpsertFlashcardProgress = None"
    define row where "row = \<lparr>fp_question_id = q, fp_user_id = u, reviews = reviews r + 1,
        last_review = startTime e, next_review = startTime e + math_round i * ms_per_day,
        interval = i\<rparr>"
    have m: "?M row" by (simp add: row_def)
    have R: "?R = (d\<lparr>flashcard_progress_rows :=
                      map (\<lambda>x. if ?M x then row else x) (flashcard_progress_rows d)\<rparr>, Inr ())"
      using a review_found[OF u, where d = d and q = q and r = r and known = known]
      by (simp add: set_date_def Let_def row_def)
    show "snd ?R = Inr () \<and> map interval (filter ?M (flashcard_progress_rows (fst ?R))) = [i]"
      unfolding R using a filter_replace[of ?M row "flashcard_progress_rows d", OF m]
      by (simp add: row_def)
  qed
  have 2: "filter ?M (flashcard_progress_rows d) = [r]
       \<and> fails e SelectFlashcardProgress = None \<and> known
       \<and> (js_times (interval r) 2.5 = None
            \<or> js_times (interval r) 2.5 = Some i
               \<and> max_time < \<bar>startTime e + math_round i * ms_per_day\<bar>) \<longrightarrow>
         (\<exists>m. snd ?R = Inl m)"
  proof
    assume a: "filter ?M (flashcard_progress_rows d) = [r]
       \<and> fails e SelectFlashcardProgress = None \<and> known
       \<and> (js_times (interval r) 2.5 = None
            \<or> js_times (interval r) 2.5 = Some i
               \<and> max_time < \<bar>startTime e + math_round i * ms_per_day\<bar>)"
    then have f: "?R = (case js_times (interval r) 2.5 of
        None \<Rightarrow> (d, Inl invalid_time_value)
      | Some i \<Rightarrow>
          (case set_date (startTime e) (math_round i) of
             None \<Rightarrow> (d, Inl invalid_time_value)
           | Some nr \<Rightarrow>
               (case fails e UpsertFlashcardProgress of
                  Some err \<Rightarrow> (d, Inl (message err))
                | None \<Rightarrow>
                    (d\<lparr>flashcard_progress_rows :=
                        map (\<lambda>x. if fp_question_id x = q \<and> fp_user_id x = u
                                  then \<lparr>fp_question_id = q, fp_user_id = u, reviews = reviews r + 1,
                                        last_review = startTime e, next_review = nr, interval = i\<rparr>
                                  else x) (flashcard_progress_rows d)\<rparr>,
                     Inr ()))))"
      using review_found[OF u, where d = d and q = q and r = r and known = known] by simp
    from a have "js_times (interval r) 2.5 = None
            \<or> js_times (interval r) 2.5 = Some i
               \<and> max_time < \<bar>startTime e + math_round i * ms_per_day\<bar>" by simp
    then show "\<exists>m. snd ?R = Inl m"
    proof
      assume "js_times (interval r) 2.5 = None"
      then show ?thesis unfolding f by simp
    next
      assume "js_times (interval r) 2.5 = Some i
               \<and> max_time < \<bar>startTime e + math_round i * ms_per_day\<bar>"
      then show ?thesis unfolding f by (simp add: set_date_def Let_def)
    qed
  qed
  have 3: "k < 22 \<longrightarrow> js_times ((5 / 2) ^ k) 2.5 = Some ((5 / 2) ^ Suc k)"
    using times_exact by blast
  have 4: "filter ?M (flashcard_progress_rows d) = [r]
       \<and> fails e SelectFlashcardProgress = None \<and> \<not> known
       \<and> \<bar>startTime e + ms_per_day\<bar> \<le> max_time
       \<and> fails e UpsertFlashcardProgress = None \<longrightarrow>
         snd ?R = Inr () \<and> map interval (filter ?M (flashcard_progress_rows (fst ?R))) = [1]"
  proof
    assume a: "filter ?M (flashcard_progress_rows d) = [r]
       \<and> fails e SelectFlashcardProgress = None \<and> \<not> known
       \<and> \<bar>startTime e + ms_per_day\<bar> \<le> max_time
       \<and> fails e UpsertFlashcardProgress = None"
    define row where "row = \<lparr>fp_question_id = q, fp_user_id = u, reviews = reviews r + 1,
        last_review = startTime e, next_review = startTime e + ms_per_day,
        interval = 1\<rparr>"
    have m: "?M row" by (simp add: row_def)
    have R: "?R = (d\<lparr>flashcard_progress_rows :=
                      map (\<lambda>x. if ?M x then row else x) (flashcard_progress_rows d)\<rparr>, Inr ())"
      using a review_found[OF u, where d = d and q = q and r = r and known = known]
      by (simp add: set_date_def Let_def row_def r1)
    show "snd ?R = Inr () \<and> map interval (filter ?M (flashcard_progress_rows (fst ?R))) = [1]"
      unfolding R using a filter_replace[of ?M row "flashcard_progress_rows d", OF m]
      by (simp add: row_def)
  qed
  have 5: "(filter ?M (flashcard_progress_rows d) = []
        \<or> filter ?M (flashcard_progress_rows d) = [r]
           \<and> fails e SelectFlashcardProgress \<noteq> None)
       \<and> \<bar>startTime e + ms_per_day\<bar> \<le> max_time
       \<and> fails e UpsertFlashcardProgress = None \<longrightarrow>
         snd ?R = Inr () \<and> map interval (filter ?M (flashcard_progress_rows (fst ?R))) = [1]"
  proof
    assume a: "(filter ?M (flashcard_progress_rows d) = []
        \<or> filter ?M (flashcard_progress_rows d) = [r]
           \<and> fails e SelectFlashcardProgress \<noteq> None)
       \<and> \<bar>startTime e + ms_per_day\<bar> \<le> max_time
       \<and> fails e UpsertFlashcardProgress = None"
    define row where "row = \<lparr>fp_question_id = q, fp_user_id = u, reviews = 1,
        last_review = startTime e, next_review = startTime e + ms_per_day, interval = 1\<rparr>"
    have m: "?M row" by (simp add: row_def)
    have n: "fails e SelectFlashcardProgress \<noteq> None \<or> filter ?M (flashcard_progress_rows d) = []"
      using a by blast
    have R: "?R = (d\<lparr>flashcard_progress_rows :=
                     (if \<exists>x \<in> set (flashcard_progress_rows d). ?M x
                      then map (\<lambda>x. if ?M x then row else x) (flashcard_progress_rows d)
                      else flashcard_progress_rows d @ [row])\<rparr>, Inr ())"
      using a review_first[OF u n, where known = known]
      by (simp add: set_date_def Let_def row_def)
    from a have "filter ?M (flashcard_progress_rows d) = []
        \<or> filter ?M (flashcard_progress_rows d) = [r]" by blast
    then show "snd ?R = Inr () \<and> map interval (filter ?M (flashcard_progress_rows (fst ?R))) = [1]"
    proof
      assume e0: "filter ?M (flashcard_progress_rows d) = []"
      then have nex: "(\<exists>x \<in> set (flashcard_progress_rows d). ?M x) = False"
        by (simp add: filter_empty_conv)
      show ?thesis unfolding R nex using e0 by (simp add: row_def)
    next
      assume e1: "filter ?M (flashcard_progress_rows d) = [r]"
      then have "\<exists>x \<in> set (flashcard_progress_rows d). ?M x"
        by (metis (mono_tags, lifting) filter_False list.distinct(1))
      then show ?thesis unfolding R
        using e1 filter_replace[of ?M row "flashcard_progress_rows d", OF m]
        by (simp add: row_def)
    qed
  qed
  have 6: "fails e UpsertFlashcardProgress \<noteq> None
        \<or> (\<not> known \<or> fails e SelectFlashcardProgress \<noteq> None
             \<or> filter ?M (flashcard_progress_rows d) = [])
           \<and> max_time < \<bar>startTime e + ms_per_day\<bar> \<longrightarrow>
         (\<exists>m. snd ?R = Inl m)"
    using u
    by (auto simp: updateFlashcardProgress_def Let_def set_date_def r1
             split: option.splits list.splits)
  have 7: "snd ?R = Inl m \<longrightarrow> fst ?R = d"
    using review_failed_keeps by blast
  from 1 2 3 4 5 6 7 show ?thesis by (intro conjI)
qed

text \<open>
  Reviews at time 1000 of the card of question 7. With interval 1: known gives 2.5, not
  known gives 1. Without a progress row the card starts at 1. With interval
  \<open>(5 / 2) ^ 20\<close>, about 91 million days, a review marked known fails and the table is
  left as it was: the next review would be due 227373675 days ahead, beyond the last valid
  date.
\<close>

theorem flashcard_interval_policy_witness:
  "snd (updateFlashcardProgress env_ok db_flash 7 True) = Inr ()
   \<and> map interval (filter (\<lambda>r. fp_question_id r = 7 \<and> fp_user_id r = 1)
       (flashcard_progress_rows (fst (updateFlashcardProgress env_ok db_flash 7 True)))) = [5 / 2]
   \<and> map interval (filter (\<lambda>r. fp_question_id r = 7 \<and> fp_user_id r = 1)
       (flashcard_progress_rows (fst (updateFlashcardProgress env_ok db_flash 7 False)))) = [1]
   \<and> map interval (filter (\<lambda>r. fp_question_id r = 7 \<and> fp_user_id r = 1)
       (flashcard_progress_rows (fst (updateFlashcardProgress env_ok db_empty 7 True)))) = [1]
   \<and> (\<exists>m. snd (updateFlashcardProgress env_ok db_ripe 7 True) = Inl m)
   \<and> fst (updateFlashcardProgress env_ok db_ripe 7 True) = db_ripe"
proof -
  let ?M = "\<lambda>r. fp_question_id r = 7 \<and> fp_user_id r = (1::nat)"
  let ?r1 = "\<lparr>fp_question_id = 7, fp_user_id = 1, reviews = 1, last_review = 0,
              next_review = 86400000, interval = 1\<rparr>"
  let ?r20 = "\<lparr>fp_question_id = 7, fp_user_id = 1, reviews = 21, last_review = 0,
              next_review = 86400000, interval = 95367431640625 / 1048576\<rparr>"
  have u: "user env_ok = Some 1" and s: "fails env_ok SelectFlashcardProgress = None"
    and w: "fails env_ok UpsertFlashcardProgress = None" and st: "startTime env_ok = 1000"
    by (simp_all add: env_ok_def no_faults_def)
  have one: "filter ?M (flashcard_progress_rows db_flash) = [?r1]"
    by (simp add: db_flash_def db_empty_def)
  have none: "filter ?M (flashcard_progress_rows db_empty) = []"
    by (simp add: db_empty_def)
  have ripe: "filter ?M (flashcard_progress_rows db_ripe) = [?r20]"
    by (simp add: db_ripe_def db_empty_def)
  have day: "\<bar>startTime env_ok + ms_per_day\<bar> \<le> max_time"
    by (simp add: st ms_per_day_def max_time_def)
  note t = flashcard_interval_policy[OF u]
  have j1: "js_times (interval ?r1) 2.5 = Some (5 / 2)"
    using t[where k = 0,
            THEN conjunct2, THEN conjunct2, THEN conjunct1] by simp
  have d1: "\<bar>startTime env_ok + math_round (5 / 2) * ms_per_day\<bar> \<le> max_time"
    by (simp add: st math_round_def ms_per_day_def max_time_def)
  have a: "snd (updateFlashcardProgress env_ok db_flash 7 True) = Inr ()
     \<and> map interval (filter ?M
         (flashcard_progress_rows (fst (updateFlashcardProgress env_ok db_flash 7 True)))) = [5 / 2]"
    using t[where d = db_flash and q = 7 and r = ?r1 and known = True
              and i = "5 / 2",
            THEN conjunct1] one s w j1 d1
    by blast
  have b: "map interval (filter ?M
         (flashcard_progress_rows (fst (updateFlashcardProgress env_ok db_flash 7 False)))) = [1]"
    using t[where d = db_flash and q = 7 and r = ?r1 and known = False,
            THEN conjunct2, THEN conjunct2, THEN conjunct2, THEN conjunct1] one s w day
    by blast
  have c: "map interval (filter ?M
         (flashcard_progress_rows (fst (updateFlashcardProgress env_ok db_empty 7 True)))) = [1]"
    using t[where d = db_empty and q = 7 and known = True,
            THEN conjunct2, THEN conjunct2, THEN conjunct2, THEN conjunct2, THEN conjunct1] none w day
    by blast
  have j20: "js_times (interval ?r20) 2.5 = Some (476837158203125 / 2097152)"
    using t[where k = 20,
            THEN conjunct2, THEN conjunct2, THEN conjunct1]
    by (simp add: power_divide)
  have d20: "max_time < \<bar>startTime env_ok + math_round (476837158203125 / 2097152) * ms_per_day\<bar>"
    by (simp add: st math_round_def floor_rat_numeral ms_per_day_def max_time_def)
  have f: "\<exists>m. snd (updateFlashcardProgress env_ok db_ripe 7 True) = Inl m"
    using t[where d = db_ripe and q = 7 and r = ?r20
              and known = True and i = "476837158203125 / 2097152",
            THEN conjunct2, THEN conjunct1] ripe s j20 d20
    by blast
  then obtain m where m: "snd (updateFlashcardProgress env_ok db_ripe 7 True) = Inl m" by blast
  have g: "fst (updateFlashcardProgress env_ok db_ripe 7 True) = db_ripe"
    using t[where d = db_ripe and q = 7 and known = True,
            THEN conjunct2, THEN conjunct2, THEN conjunct2, THEN conjunct2, THEN conjunct2,
            THEN conjunct2, THEN mp, OF m] .
  from a b c f g show ?thesis by (intro conjI) blast+
qed

text \<open>
  Claim C9 as stated fails: a card with interval 1 that is marked known gets the interval
  2.5, which is not twice 1.
\<close>

theorem interval_doubling_counterexample:
  "interval (hd (flashcard_progress_rows db_flash)) = 1
   \<and> interval (hd (flashcard_progress_rows (fst (updateFlashcardProgress env_ok db_flash 7 True)))) = 5 / 2
   \<and> interval (hd (flashcard_progress_rows (fst (updateFlashcardProgress env_ok db_flash 7 True))))
       \<noteq> 2 * interval (hd (flashcard_progress_rows db_flash))"
  by (simp add: updateFlashcardProgress_def db_flash_def db_empty_def env_ok_def no_faults_def
        double_defs set_date_def math_round_def ms_per_day_def max_time_def)

section \<open>Fallback of the extraction\<close>

lemma transcript_absent_error:
  "transcript_absent reply \<Longrightarrow> \<exists>m. transcript_content url reply = Inl m"
  by (auto simp: transcript_absent_def transcript_content_def split: transcript_reply.splits option.splits)

lemma text_lines_first: "text_lines (x # y # ys) = x @ [10] @ text_lines (y # ys)"
  by (simp add: text_lines_def)

lemma fallbackText_prefix:
  "\<exists>rest. fallbackText url vid m = (lit ''[YouTube Video: '' @ url @ lit '']'') @ [10] @ rest"
  unfolding fallbackText_def by (subst text_lines_first) (rule exI, rule refl)

lemma fallback_content:
  assumes "transcript_content url reply = Inl m"
  shows "hasTranscript (ec_metadata (extractYouTubeTranscript url reply)) = Some False"
    and "extractionError (ec_metadata (extractYouTubeTranscript url reply)) = Some m"
    and "extractedText (extractYouTubeTranscript url reply) = fallbackText url (extractYouTubeVideoId url) m"
    and "wordCount (ec_metadata (extractYouTubeTranscript url reply))
           = split_count (extractedText (extractYouTubeTranscript url reply))"
  using assms by (simp_all add: extractYouTubeTranscript_def Let_def)


lemma wrap_error_simps:
  "wrap_error p (Inl m) = Inl (p @ m)" "wrap_error p (Inr x) = Inr x"
  by (simp_all add: wrap_error_def)

text \<open>
  Claim C7, as amended. When the transcript of a video is absent (the provider threw, timed
  out, or returned nothing) or the URL holds no video identifier, the extraction returns
  a content whose metadata says \<open>hasTranscript = false\<close> and carries the error, and whose
  text is the placeholder that starts with the label of the video; a URL on a video host
  given to the web strategy is handled the same way. A web page that cannot be fetched is
  not recovered: the web strategy throws ``Failed to process website: Unable to access
  the website ...''.
\<close>

theorem extraction_fallback:
  "(transcript_absent reply \<or> extractYouTubeVideoId url = None \<longrightarrow>
      hasTranscript (ec_metadata (extractYouTubeTranscript url reply)) = Some False
      \<and> extractionError (ec_metadata (extractYouTubeTranscript url reply)) \<noteq> None
      \<and> (\<exists>rest. extractedText (extractYouTubeTranscript url reply)
                   = (lit ''[YouTube Video: '' @ url @ lit '']'') @ [10] @ rest))
   \<and> (includes_str host (lit ''youtube.com'') \<or> includes_str host (lit ''youtu.be'') \<longrightarrow>
        fps_processWebURL url (Some host) wreply reply isoDate
          = Inr (extractYouTubeTranscript url reply))
   \<and> (\<not> includes_str host (lit ''youtube.com'') \<and> \<not> includes_str host (lit ''youtu.be'') \<longrightarrow>
        fps_processWebURL url (Some host) (FetchThrew m) reply isoDate
          = Inl (lit ''Failed to process website: Unable to access the website. This may be due to CORS restrictions or the site being unavailable. Error: '' @ m))"
proof (intro conjI impI)
  assume a: "transcript_absent reply \<or> extractYouTubeVideoId url = None"
  have "\<exists>m. transcript_content url reply = Inl m"
  proof (cases "extractYouTubeVideoId url")
    case None
    then show ?thesis by (simp add: transcript_content_def)
  next
    case (Some v)
    with a show ?thesis using transcript_absent_error by simp
  qed
  then obtain m' where m': "transcript_content url reply = Inl m'" ..
  show "hasTranscript (ec_metadata (extractYouTubeTranscript url reply)) = Some False"
    using fallback_content(1)[OF m'] .
  show "extractionError (ec_metadata (extractYouTubeTranscript url reply)) \<noteq> None"
    using fallback_content(2)[OF m'] by simp
  show "\<exists>rest. extractedText (extractYouTubeTranscript url reply)
                   = (lit ''[YouTube Video: '' @ url @ lit '']'') @ [10] @ rest"
    unfolding fallback_content(3)[OF m'] by (rule fallbackText_prefix)
next
  assume "includes_str host (lit ''youtube.com'') \<or> includes_str host (lit ''youtu.be'')"
  then show "fps_processWebURL url (Some host) wreply reply isoDate
          = Inr (extractYouTubeTranscript url reply)"
    by (simp only: fps_processWebURL_def web_content_def option.case if_True wrap_error_simps)
next
  assume "\<not> includes_str host (lit ''youtube.com'') \<and> \<not> includes_str host (lit ''youtu.be'')"
  then have n: "(includes_str host (lit ''youtube.com'') \<or> includes_str host (lit ''youtu.be'')) = False"
    by simp
  show "fps_processWebURL url (Some host) (FetchThrew m) reply isoDate
          = Inl (lit ''Failed to process website: Unable to access the website. This may be due to CORS restrictions or the site being unavailable. Error: '' @ m)"
    by (simp only: fps_processWebURL_def web_content_def option.case n if_False web_reply.case wrap_error_simps)
       simp
qed

text \<open>
  The fallback on a video URL whose transcript request timed out, and the error for a page
  whose fetch failed.
\<close>

theorem extraction_fallback_witness:
  "hasTranscript (ec_metadata (extractYouTubeTranscript (lit ''https://youtu.be/abc'') TimedOut)) = Some False
   \<and> take 37 (extractedText (extractYouTubeTranscript (lit ''https://youtu.be/abc'') TimedOut))
       = lit ''[YouTube Video: https://youtu.be/abc]''
   \<and> fps_processWebURL (lit ''https://youtu.be/abc'') (Some (lit ''youtu.be'')) (FetchThrew (lit ''Failed to fetch''))
         TimedOut (lit ''2025-06-28T12:00:00.000Z'')
       = Inr (extractYouTubeTranscript (lit ''https://youtu.be/abc'') TimedOut)
   \<and> fps_processWebURL (lit ''https://example.com/a'') (Some (lit ''example.com''))
         (FetchThrew (lit ''Failed to fetch'')) TimedOut (lit ''2025-06-28T12:00:00.000Z'')
       = Inl (lit ''Failed to process website: Unable to access the website. This may be due to CORS restrictions or the site being unavailable. Error: Failed to fetch'')"
proof -
  have a: "transcript_absent TimedOut \<or> extractYouTubeVideoId (lit ''https://youtu.be/abc'') = None"
    by (simp add: transcript_absent_def)
  have y: "includes_str (lit ''youtu.be'') (lit ''youtube.com'') \<or> includes_str (lit ''youtu.be'') (lit ''youtu.be'')"
    by simp
  have n: "\<not> includes_str (lit ''example.com'') (lit ''youtube.com'')
           \<and> \<not> includes_str (lit ''example.com'') (lit ''youtu.be'')"
    by simp
  note t1 = extraction_fallback[of TimedOut "lit ''https://youtu.be/abc''" "lit ''youtu.be''"
        "FetchThrew (lit ''Failed to fetch'')" "lit ''2025-06-28T12:00:00.000Z''" "lit ''Failed to fetch''"]
  note t2 = extraction_fallback[of TimedOut "lit ''https://example.com/a''" "lit ''example.com''"
        "FetchThrew (lit ''Failed to fetch'')" "lit ''2025-06-28T12:00:00.000Z''" "lit ''Failed to fetch''"]
  from t1 a obtain rest where
    h: "hasTranscript (ec_metadata (extractYouTubeTranscript (lit ''https://youtu.be/abc'') TimedOut)) = Some False"
    and r: "extractedText (extractYouTubeTranscript (lit ''https://youtu.be/abc'') TimedOut)
             = (lit ''[YouTube Video: '' @ lit ''https://youtu.be/abc'' @ lit '']'') @ [10] @ rest"
    by blast
  have p: "take 37 (extractedText (extractYouTubeTranscript (lit ''https://youtu.be/abc'') TimedOut))
       = lit ''[YouTube Video: https://youtu.be/abc]''"
    unfolding r by simp
  from t1 y have w1: "fps_processWebURL (lit ''https://youtu.be/abc'') (Some (lit ''youtu.be'')) (FetchThrew (lit ''Failed to fetch''))
         TimedOut (lit ''2025-06-28T12:00:00.000Z'')
       = Inr (extractYouTubeTranscript (lit ''https://youtu.be/abc'') TimedOut)"
    by blast
  from t2 n have w2: "fps_processWebURL (lit ''https://example.com/a'') (Some (lit ''example.com''))
         (FetchThrew (lit ''Failed to fetch'')) TimedOut (lit ''2025-06-28T12:00:00.000Z'')
       = Inl (lit ''Failed to process website: Unable to access the website. This may be due to CORS restrictions or the site being unavailable. Error: '' @ lit ''Failed to fetch'')"
    by blast
  show ?thesis using h p w1 w2 by simp
qed

text \<open>
  Claim C7 as stated fails: for an unreachable web page the web strategy throws.
\<close>

theorem unreachable_page_counterexample:
  "fps_processWebURL (lit ''https://example.com/a'') (Some (lit ''example.com''))
     (FetchThrew (lit ''Failed to fetch'')) TimedOut (lit ''2025-06-28T12:00:00.000Z'')
   = Inl (lit ''Failed to process website: Unable to access the website. This may be due to CORS restrictions or the site being unavailable. Error: Failed to fetch'')"
  by (simp add: fps_processWebURL_def web_content_def wrap_error_def)

section \<open>Word counts of the strategies\<close>











section \<open>What a generation run leaves in the store\<close>

lemma createGeneration_Inl:
  "createGeneration e d t ty sids st = (d1, Inl m) \<Longrightarrow> d1 = d"
  by (auto simp: createGeneration_def Let_def split: option.splits)

lemma createGeneration_Inr:
  "createGeneration e d t ty sids st = (d1, Inr g) \<Longrightarrow>
     generations d1 = generations d @ [g] \<and> questions d1 = questions d
     \<and> generation_items d1 = generation_items d \<and> next_uuid d1 = Suc (next_uuid d)
     \<and> g_id g = next_uuid d \<and> source_ids g = sids \<and> status g = st
     \<and> user e = Some (g_user_id g)"
  by (auto simp: createGeneration_def Let_def split: option.splits)

lemma addQuestions_effect:
  "addQuestionsWithGeneration e d t items gid sids = (d1, r) \<Longrightarrow>
     generations d1 = generations d \<and> generation_items d1 = generation_items d
     \<and> next_uuid d \<le> next_uuid d1
     \<and> (\<exists>qs. questions d1 = questions d @ qs
           \<and> (\<forall>q \<in> set qs. q_generation_id q = Some gid \<and> source_attribution q = Some sids
                  \<and> q_topic_id q = t \<and> user e = Some (q_user_id q))
           \<and> (\<forall>x. r = Inr x \<longrightarrow> length qs = length items)
           \<and> (\<forall>m. r = Inl m \<longrightarrow> qs = []))"
  by (auto simp: addQuestionsWithGeneration_def Let_def in_set_enumerate_eq split: option.splits)

lemma createItems_effect:
  "createGenerationItems e d gid qs sids = (d1, r) \<Longrightarrow>
     generations d1 = generations d \<and> questions d1 = questions d
     \<and> next_uuid d \<le> next_uuid d1
     \<and> (\<exists>its. generation_items d1 = generation_items d @ its
           \<and> (\<forall>i \<in> set its. gi_generation_id i = gid \<and> derived_from_sources i = sids))"
  by (auto simp: createGenerationItems_def Let_def in_set_enumerate_eq split: option.splits)

lemma apply_update_keeps:
  "g_id (apply_update e upd g) = g_id g" "source_ids (apply_update e upd g) = source_ids g"
  "g_user_id (apply_update e upd g) = g_user_id g"
  by (simp_all add: apply_update_def)

lemma updateGeneration_effect:
  assumes "generations d = gs @ [g]" and "g_id g = gid" and "user e = Some (g_user_id g)"
    and "updateGeneration e d gid upd = (d1, r)"
  shows "questions d1 = questions d \<and> generation_items d1 = generation_items d
     \<and> next_uuid d1 = next_uuid d
     \<and> (\<exists>g'. generations d1 = gs @ [g'] \<and> g_id g' = gid \<and> source_ids g' = source_ids g
            \<and> g_user_id g' = g_user_id g
            \<and> (\<forall>x. r = Inr x \<longrightarrow> g' = apply_update e upd g)
            \<and> (\<forall>m. r = Inl m \<longrightarrow> g' = g))"
proof -
  let ?P = "\<lambda>x. g_id x = gid \<and> g_user_id x = g_user_id g"
  have f: "filter ?P (generations d) = filter ?P gs @ [g]" using assms(1,2) by simp
  show ?thesis
  proof (cases "fails e (UpdateGeneration (u_status upd))")
    case (Some err)
    then show ?thesis using assms by (auto simp: updateGeneration_def)
  next
    case None
    show ?thesis
    proof (cases "filter ?P gs = []")
      case True
      then have "map (\<lambda>x. if ?P x then apply_update e upd x else x) gs = gs"
        by (induction gs) (auto split: if_splits)
      then show ?thesis using assms None True f
        by (auto simp: updateGeneration_def apply_update_keeps)
    next
      case False
      then obtain a as where "filter ?P gs = a # as" by (cases "filter ?P gs") auto
      then have "filter ?P (generations d) = a # as @ [g]" using f by simp
      then show ?thesis using assms None
        by (auto simp: updateGeneration_def split: list.splits)
    qed
  qed
qed

lemma fps_generated:
  "fps_generateAIContent name ps key reply = Inr ai \<Longrightarrow>
     generated ai = length (content ai) \<and> content ai \<noteq> []"
  by (auto simp: fps_generateAIContent_def Let_def split: if_splits completion.splits)

lemma generation_steps_effect:
  assumes gens: "generations d1 = gs @ [gen]" and usr: "user e = Some (g_user_id gen)"
    and run: "generation_steps e d1 t name kb key gen sids = (d2, r)"
  shows "\<exists>g' qs its.
           generations d2 = gs @ [g'] \<and> g_id g' = g_id gen \<and> source_ids g' = source_ids gen
           \<and> g_user_id g' = g_user_id gen
           \<and> questions d2 = questions d1 @ qs
           \<and> (\<forall>q \<in> set qs. q_generation_id q = Some (g_id gen) \<and> source_attribution q = Some sids
                  \<and> q_topic_id q = t \<and> q_user_id q = g_user_id gen)
           \<and> generation_items d2 = generation_items d1 @ its
           \<and> (\<forall>i \<in> set its. gi_generation_id i = g_id gen \<and> derived_from_sources i = sids)
           \<and> next_uuid d1 \<le> next_uuid d2
           \<and> (\<forall>ai. r = Inr ai \<longrightarrow> length qs = generated ai \<and> status g' = lit ''completed''
                  \<and> items_generated g' = generated ai)
           \<and> (\<forall>m. r = Inl m \<longrightarrow> g' = gen)"
proof (cases "fps_generateAIContent name (map piece_of_entry kb) key (completion e)")
  case (Inl m)
  then have "d2 = d1" "r = Inl m" using run by (simp_all add: generation_steps_def)
  then show ?thesis using gens by simp
next
  case (Inr ai)
  note ai = fps_generated[OF Inr]
  obtain da ra where a: "addQuestionsWithGeneration e d1 t (content ai) (g_id gen) sids = (da, ra)"
    by (cases "addQuestionsWithGeneration e d1 t (content ai) (g_id gen) sids")
  from addQuestions_effect[OF a] obtain qs where
    qa: "generations da = generations d1" "generation_items da = generation_items d1"
        "next_uuid d1 \<le> next_uuid da" "questions da = questions d1 @ qs"
        "\<forall>q \<in> set qs. q_generation_id q = Some (g_id gen) \<and> source_attribution q = Some sids
                  \<and> q_topic_id q = t \<and> user e = Some (q_user_id q)"
        "\<forall>x. ra = Inr x \<longrightarrow> length qs = length (content ai)"
    by blast
  have qu: "\<forall>q \<in> set qs. q_generation_id q = Some (g_id gen) \<and> source_attribution q = Some sids
                  \<and> q_topic_id q = t \<and> q_user_id q = g_user_id gen"
    using qa(5) usr by auto
  show ?thesis
  proof (cases ra)
    case (Inl m)
    then have "d2 = da" "r = Inl m" using run Inr a by (simp_all add: generation_steps_def)
    then show ?thesis using gens qa qu by auto
  next
    case qsr: (Inr qrows)
    obtain db rb where b: "createGenerationItems e da (g_id gen) qrows sids = (db, rb)"
      by (cases "createGenerationItems e da (g_id gen) qrows sids")
    from createItems_effect[OF b] obtain its where
      ib: "generations db = generations da" "questions db = questions da"
          "next_uuid da \<le> next_uuid db" "generation_items db = generation_items da @ its"
          "\<forall>i \<in> set its. gi_generation_id i = g_id gen \<and> derived_from_sources i = sids"
      by blast
    show ?thesis
    proof (cases rb)
      case (Inl m)
      then have "d2 = db" "r = Inl m" using run Inr a qsr b by (simp_all add: generation_steps_def)
      then show ?thesis using gens qa qu ib by auto
    next
      case isr: (Inr irows)
      let ?upd = "\<lparr>u_status = Some (lit ''completed''), u_itemsGenerated = Some (generated ai),
              u_breakdown = Some (ai_breakdown ai), u_completedAt = Some (endTime e),
              u_processingTimeMs = Some (endTime e - startTime e), u_errorMessage = None\<rparr>"
      obtain dc rc where c: "updateGeneration e db (g_id gen) ?upd = (dc, rc)"
        by (cases "updateGeneration e db (g_id gen) ?upd")
      have gdb: "generations db = gs @ [gen]" using ib(1) qa(1) gens by simp
      from updateGeneration_effect[OF gdb refl usr c] obtain g' where
        uc: "questions dc = questions db" "generation_items dc = generation_items db"
            "next_uuid dc = next_uuid db" "generations dc = gs @ [g']" "g_id g' = g_id gen"
            "source_ids g' = source_ids gen" "g_user_id g' = g_user_id gen"
            "\<forall>x. rc = Inr x \<longrightarrow> g' = apply_update e ?upd gen" "\<forall>m. rc = Inl m \<longrightarrow> g' = gen"
        by blast
      have d2: "d2 = dc" using run Inr a qsr b isr c
        by (auto simp: generation_steps_def split: sum.splits)
      have r: "r = (case rc of Inl m \<Rightarrow> Inl m | Inr x \<Rightarrow> Inr ai)" using run Inr a qsr b isr c
        by (auto simp: generation_steps_def split: sum.splits)
      have okc: "\<forall>a. r = Inr a \<longrightarrow> length qs = generated a \<and> status g' = lit ''completed''
                  \<and> items_generated g' = generated a"
        using r uc(8) qa(6) qsr ai by (auto simp: apply_update_def split: sum.splits)
      have failed: "\<forall>m. r = Inl m \<longrightarrow> g' = gen" using r uc(9) by (auto split: sum.splits)
      have "generations d2 = gs @ [g'] \<and> g_id g' = g_id gen \<and> source_ids g' = source_ids gen
           \<and> g_user_id g' = g_user_id gen
           \<and> questions d2 = questions d1 @ qs
           \<and> (\<forall>q \<in> set qs. q_generation_id q = Some (g_id gen) \<and> source_attribution q = Some sids
                  \<and> q_topic_id q = t \<and> q_user_id q = g_user_id gen)
           \<and> generation_items d2 = generation_items d1 @ its
           \<and> (\<forall>i \<in> set its. gi_generation_id i = g_id gen \<and> derived_from_sources i = sids)
           \<and> next_uuid d1 \<le> next_uuid d2
           \<and> (\<forall>ai. r = Inr ai \<longrightarrow> length qs = generated ai \<and> status g' = lit ''completed''
                  \<and> items_generated g' = generated ai)
           \<and> (\<forall>m. r = Inl m \<longrightarrow> g' = gen)"
        using d2 uc(1-7) ib qa(1-4) qu okc failed by simp
      then show ?thesis by blast
    qed
  qed
qed

lemma generation_failed_effect:
  assumes gens: "generations d = gs @ [g]" and usr: "user e = Some (g_user_id g)"
    and run: "(generation_failed e d g m :: db \<times> 'a result) = (d1, r)"
  shows "questions d1 = questions d \<and> generation_items d1 = generation_items d
     \<and> next_uuid d1 = next_uuid d \<and> (\<exists>m'. r = Inl m')
     \<and> (\<exists>g'. generations d1 = gs @ [g'] \<and> g_id g' = g_id g \<and> source_ids g' = source_ids g
            \<and> g_user_id g' = g_user_id g
            \<and> (status g' = status g \<or> status g' = lit ''failed''))"
proof -
  let ?upd = "\<lparr>u_status = Some (lit ''failed''), u_itemsGenerated = None, u_breakdown = None,
              u_completedAt = Some (endTime e), u_processingTimeMs = None,
              u_errorMessage = Some m\<rparr>"
  obtain dc rc where c: "updateGeneration e d (g_id g) ?upd = (dc, rc)"
    by (cases "updateGeneration e d (g_id g) ?upd")
  from updateGeneration_effect[OF gens refl usr c] obtain g' where
    uc: "questions dc = questions d" "generation_items dc = generation_items d"
        "next_uuid dc = next_uuid d" "generations dc = gs @ [g']" "g_id g' = g_id g"
        "source_ids g' = source_ids g" "g_user_id g' = g_user_id g"
        "\<forall>x. rc = Inr x \<longrightarrow> g' = apply_update e ?upd g" "\<forall>m. rc = Inl m \<longrightarrow> g' = g"
    by blast
  have d1: "d1 = dc" and r: "\<exists>m'. r = Inl m'" using run c
    by (auto simp: generation_failed_def split: sum.splits)
  have "status g' = status g \<or> status g' = lit ''failed''"
    using uc(8,9) by (cases rc) (auto simp: apply_update_def)
  then show ?thesis using d1 r uc(1-7) by auto
qed

lemma run_tail:
  assumes c: "createGeneration e d t ty sids (lit ''processing'') = (d1, Inr gen)"
    and s: "generation_steps e d1 t name kb key gen sids = (d2, rs)"
    and f: "(case rs of Inl m \<Rightarrow> generation_failed e d2 gen m | Inr ai \<Rightarrow> (d2, Inr (mk ai))) = (d', r)"
  shows "\<exists>out. user e = Some (g_user_id gen)
           \<and> generation_recorded d d' (g_user_id gen) t sids out
           \<and> (\<forall>ai. rs = Inr ai \<longrightarrow> out = Some (generated ai) \<and> r = Inr (mk ai))
           \<and> (\<forall>m. rs = Inl m \<longrightarrow> out = None \<and> (\<exists>m'. r = Inl m'))"
proof -
  note cg = createGeneration_Inr[OF c]
  have g1: "generations d1 = generations d @ [gen]" and usr: "user e = Some (g_user_id gen)"
    using cg by simp_all
  from generation_steps_effect[OF g1 usr s] obtain g' qs its where
    st: "generations d2 = generations d @ [g']" "g_id g' = g_id gen" "source_ids g' = source_ids gen"
        "g_user_id g' = g_user_id gen" "questions d2 = questions d1 @ qs"
        "\<forall>q \<in> set qs. q_generation_id q = Some (g_id gen) \<and> source_attribution q = Some sids
                  \<and> q_topic_id q = t \<and> q_user_id q = g_user_id gen"
        "generation_items d2 = generation_items d1 @ its"
        "\<forall>i \<in> set its. gi_generation_id i = g_id gen \<and> derived_from_sources i = sids"
        "next_uuid d1 \<le> next_uuid d2"
        "\<forall>ai. rs = Inr ai \<longrightarrow> length qs = generated ai \<and> status g' = lit ''completed''
                  \<and> items_generated g' = generated ai"
        "\<forall>m. rs = Inl m \<longrightarrow> g' = gen"
    by blast
  show ?thesis
  proof (cases rs)
    case (Inr ai)
    then have d': "d' = d2" and r: "r = Inr (mk ai)" using f by simp_all
    have "generation_recorded d d' (g_user_id gen) t sids (Some (generated ai))"
      unfolding generation_recorded_def
      apply (rule exI[of _ g'], rule exI[of _ qs], rule exI[of _ its])
      using st cg Inr d' by auto
    then show ?thesis using usr Inr r by auto
  next
    case (Inl m)
    then have fl: "generation_failed e d2 gen m = (d', r)" using f by simp
    have g2: "generations d2 = generations d @ [gen]" using st(1,11) Inl by simp
    from generation_failed_effect[OF g2 usr fl] obtain g'' where
      fe: "questions d' = questions d2" "generation_items d' = generation_items d2"
          "next_uuid d' = next_uuid d2" "\<exists>m'. r = Inl m'"
          "generations d' = generations d @ [g'']" "g_id g'' = g_id gen"
          "source_ids g'' = source_ids gen" "g_user_id g'' = g_user_id gen"
          "status g'' = status gen \<or> status g'' = lit ''failed''"
      by blast
    have "generation_recorded d d' (g_user_id gen) t sids None"
      unfolding generation_recorded_def
      apply (rule exI[of _ g''], rule exI[of _ qs], rule exI[of _ its])
      using st(5-9) cg fe by auto
    then show ?thesis using usr Inl fe(4) by auto
  qed
qed

lemma valid_ids:
  "user e = Some u \<Longrightarrow> getSources e d t = Inr allSources \<Longrightarrow>
     filter (\<lambda>i. \<exists>s \<in> set allSources. s_id s = i) ids
     = filter (\<lambda>i. i \<in> set (topic_source_ids d u t)) ids"
  by (auto simp: getSources_def topic_source_ids_def image_iff split: option.splits
           intro!: filter_cong)

lemma bulk_ids:
  "user e = Some u \<Longrightarrow> getSources e d t = Inr srcs \<Longrightarrow>
     map s_id srcs = rev (topic_source_ids d u t)"
  by (auto simp: getSources_def topic_source_ids_def rev_map split: option.splits)

lemma selective_summary:
  assumes run: "generateAIContentFromSources e d t ids = (d', r)"
  shows "(d' = d \<and> (\<exists>m. r = Inl m))
       \<or> (\<exists>u out. user e = Some u
            \<and> generation_recorded d d' u t (filter (\<lambda>i. i \<in> set (topic_source_ids d u t)) ids) out
            \<and> (\<forall>res. r = Inr res \<longrightarrow> out = Some (r_generated res))
            \<and> (\<forall>m. r = Inl m \<longrightarrow> out = None))"
proof (cases "user e")
  case None
  then show ?thesis using run by (auto simp: generateAIContentFromSources_def)
next
  case (Some u)
  show ?thesis
  proof (cases "api_key e")
    case (Inl m)
    then show ?thesis using run Some by (auto simp: generateAIContentFromSources_def)
  next
    case key: (Inr key)
    show ?thesis
    proof (cases "getSources e d t")
      case (Inl m)
      then show ?thesis using run Some key by (auto simp: generateAIContentFromSources_def)
    next
      case srcs: (Inr allSources)
      let ?valid = "filter (\<lambda>i. i \<in> set (topic_source_ids d u t)) ids"
      note v = valid_ids[OF Some srcs, of ids]
      show ?thesis
      proof (cases "?valid = []")
        case True
        then show ?thesis using run Some key srcs v
          by (auto simp: generateAIContentFromSources_def Let_def)
      next
        case ne: False
        show ?thesis
        proof (cases "getKnowledgeBaseBySourceIds e d t ?valid")
          case (Inl m)
          then show ?thesis using run Some key srcs v ne
            by (auto simp: generateAIContentFromSources_def Let_def)
        next
          case kb: (Inr kb)
          show ?thesis
          proof (cases "kb = []")
            case True
            then show ?thesis using run Some key srcs v ne kb
              by (auto simp: generateAIContentFromSources_def Let_def)
          next
            case kbne: False
            show ?thesis
            proof (cases "getTopic e d t")
              case (Inl m)
              then show ?thesis using run Some key srcs v ne kb kbne
                by (auto simp: generateAIContentFromSources_def Let_def)
            next
              case tp: (Inr tp)
              obtain d1 rc where c: "createGeneration e d t (lit ''selective'') ?valid (lit ''processing'') = (d1, rc)"
                by (cases "createGeneration e d t (lit ''selective'') ?valid (lit ''processing'')")
              show ?thesis
              proof (cases rc)
                case (Inl m)
                then have "d1 = d" using c createGeneration_Inl by blast
                then show ?thesis using run Some key srcs v ne kb kbne tp c Inl
                  by (auto simp: generateAIContentFromSources_def Let_def)
              next
                case gen: (Inr gen)
                obtain d2 rs where s: "generation_steps e d1 t (t_name tp) kb key gen ?valid = (d2, rs)"
                  by (cases "generation_steps e d1 t (t_name tp) kb key gen ?valid")
                let ?mk = "\<lambda>ai. \<lparr>r_generated = generated ai, r_breakdown = ai_breakdown ai,
                    r_generationId = g_id gen, r_sourceCount = Some (length ?valid)\<rparr>"
                have f: "(case rs of Inl m \<Rightarrow> generation_failed e d2 gen m
                          | Inr ai \<Rightarrow> (d2, Inr (?mk ai))) = (d', r)"
                  using run Some key srcs v ne kb kbne tp c gen s
                  by (simp add: generateAIContentFromSources_def Let_def split: sum.splits)
                from run_tail[OF c[unfolded gen] s f] obtain out where
                  o: "user e = Some (g_user_id gen)"
                     "generation_recorded d d' (g_user_id gen) t ?valid out"
                     "\<forall>ai. rs = Inr ai \<longrightarrow> out = Some (generated ai) \<and> r = Inr (?mk ai)"
                     "\<forall>m. rs = Inl m \<longrightarrow> out = None \<and> (\<exists>m'. r = Inl m')"
                  by blast
                have u: "g_user_id gen = u" using o(1) Some by simp
                have "\<forall>res. r = Inr res \<longrightarrow> out = Some (r_generated res)"
                  using o(3,4) by (cases rs) auto
                moreover have "\<forall>m. r = Inl m \<longrightarrow> out = None"
                  using o(3,4) by (cases rs) auto
                ultimately show ?thesis using o(2) u Some by blast
              qed
            qed
          qed
        qed
      qed
    qed
  qed
qed

lemma bulk_summary:
  assumes run: "generateAIContent e d t = (d', r)"
  shows "(d' = d \<and> (\<exists>m. r = Inl m))
       \<or> (\<exists>u out. user e = Some u
            \<and> generation_recorded d d' u t (rev (topic_source_ids d u t)) out
            \<and> (\<forall>res. r = Inr res \<longrightarrow> out = Some (r_generated res))
            \<and> (\<forall>m. r = Inl m \<longrightarrow> out = None))"
proof (cases "user e")
  case None
  then show ?thesis using run by (auto simp: generateAIContent_def)
next
  case (Some u)
  show ?thesis
  proof (cases "api_key e")
    case (Inl m)
    then show ?thesis using run Some by (auto simp: generateAIContent_def)
  next
    case key: (Inr key)
    show ?thesis
    proof (cases "getSources e d t")
      case (Inl m)
      then show ?thesis using run Some key by (auto simp: generateAIContent_def)
    next
      case srcs: (Inr srcs)
      let ?ids = "rev (topic_source_ids d u t)"
      note v = bulk_ids[OF Some srcs]
      show ?thesis
      proof (cases "srcs = []")
        case True
        then show ?thesis using run Some key srcs
          by (auto simp: generateAIContent_def Let_def)
      next
        case ne: False
        show ?thesis
        proof (cases "getKnowledgeBase e d t")
          case (Inl m)
          then show ?thesis using run Some key srcs ne
            by (auto simp: generateAIContent_def Let_def)
        next
          case kb: (Inr kb)
          show ?thesis
          proof (cases "getTopic e d t")
            case (Inl m)
            then show ?thesis using run Some key srcs ne kb
              by (auto simp: generateAIContent_def Let_def)
          next
            case tp: (Inr tp)
            obtain d1 rc where c: "createGeneration e d t (lit ''bulk'') ?ids (lit ''processing'') = (d1, rc)"
              by (cases "createGeneration e d t (lit ''bulk'') ?ids (lit ''processing'')")
            show ?thesis
            proof (cases rc)
              case (Inl m)
              then have "d1 = d" using c createGeneration_Inl by blast
              then show ?thesis using run Some key srcs v ne kb tp c Inl
                by (auto simp: generateAIContent_def Let_def)
            next
              case gen: (Inr gen)
              obtain d2 rs where s: "generation_steps e d1 t (t_name tp) kb key gen ?ids = (d2, rs)"
                by (cases "generation_steps e d1 t (t_name tp) kb key gen ?ids")
              let ?mk = "\<lambda>ai. \<lparr>r_generated = generated ai, r_breakdown = ai_breakdown ai,
                  r_generationId = g_id gen, r_sourceCount = None\<rparr>"
              have f: "(case rs of Inl m \<Rightarrow> generation_failed e d2 gen m
                        | Inr ai \<Rightarrow> (d2, Inr (?mk ai))) = (d', r)"
                using run Some key srcs v ne kb tp c gen s
                by (simp add: generateAIContent_def Let_def split: sum.splits)
              from run_tail[OF c[unfolded gen] s f] obtain out where
                o: "user e = Some (g_user_id gen)"
                   "generation_recorded d d' (g_user_id gen) t ?ids out"
                   "\<forall>ai. rs = Inr ai \<longrightarrow> out = Some (generated ai) \<and> r = Inr (?mk ai)"
                   "\<forall>m. rs = Inl m \<longrightarrow> out = None \<and> (\<exists>m'. r = Inl m')"
                by blast
              have u: "g_user_id gen = u" using o(1) Some by simp
              have "\<forall>res. r = Inr res \<longrightarrow> out = Some (r_generated res)"
                using o(3,4) by (cases rs) auto
              moreover have "\<forall>m. r = Inl m \<longrightarrow> out = None"
                using o(3,4) by (cases rs) auto
              ultimately show ?thesis using o(2) u Some by blast
            qed
          qed
        qed
      qed
    qed
  qed
qed

lemma wrap_state_simps:
  "wrap_state p (d, Inl m) = (d, Inl (p @ m))" "wrap_state p (d, Inr x) = (d, Inr x)"
  by (simp_all add: wrap_state_def wrap_error_def)

lemma wrap_state_fst: "fst (wrap_state p x) = fst x"
  by (simp add: wrap_state_def)

lemma wrap_state_Inr: "snd (wrap_state p x) = Inr v \<longleftrightarrow> snd x = Inr v"
  by (cases x; cases "snd x") (auto simp: wrap_state_def wrap_error_def)

lemma wrap_state_Inl: "(\<exists>m. snd (wrap_state p x) = Inl m) \<longleftrightarrow> (\<exists>m. snd x = Inl m)"
  by (cases x; cases "snd x") (auto simp: wrap_state_def wrap_error_def)

text \<open>The steps of the direct-text path after the completion service answered.\<close>

lemma direct_tail:
  assumes c: "createGeneration e d t ty [] (lit ''processing'') = (d1, Inr gen)"
    and run: "(case addQuestionsWithGeneration e d1 t (content ai) (g_id gen) [] of
        (d2, Inl m) \<Rightarrow> (d2, Inl m)
      | (d2, Inr qs) \<Rightarrow>
     (case createGenerationItems e d2 (g_id gen) qs [] of
        (d3, Inl m) \<Rightarrow> (d3, Inl m)
      | (d3, Inr gis) \<Rightarrow>
     (case updateGeneration e d3 (g_id gen) upd of
        (d4, Inl m) \<Rightarrow> (d4, Inl m)
      | (d4, Inr g') \<Rightarrow> (d4, Inr (mk ai))))) = (d', r)"
    and upd: "u_status upd = Some (lit ''completed'')" "u_itemsGenerated upd = Some (generated ai)"
    and ai: "generated ai = length (content ai)"
  shows "\<exists>out. user e = Some (g_user_id gen)
           \<and> generation_recorded d d' (g_user_id gen) t [] out
           \<and> (\<forall>x. r = Inr x \<longrightarrow> out = Some (generated ai) \<and> x = mk ai)
           \<and> (\<forall>m. r = Inl m \<longrightarrow> out = None)"
proof -
  note cg = createGeneration_Inr[OF c]
  have g1: "generations d1 = generations d @ [gen]" and usr: "user e = Some (g_user_id gen)"
    using cg by simp_all
  obtain da ra where a: "addQuestionsWithGeneration e d1 t (content ai) (g_id gen) [] = (da, ra)"
    by (cases "addQuestionsWithGeneration e d1 t (content ai) (g_id gen) []")
  from addQuestions_effect[OF a] obtain qs where
    qa: "generations da = generations d1" "generation_items da = generation_items d1"
        "next_uuid d1 \<le> next_uuid da" "questions da = questions d1 @ qs"
        "\<forall>q \<in> set qs. q_generation_id q = Some (g_id gen) \<and> source_attribution q = Some []
                  \<and> q_topic_id q = t \<and> user e = Some (q_user_id q)"
        "\<forall>x. ra = Inr x \<longrightarrow> length qs = length (content ai)"
    by blast
  have qu: "\<forall>q \<in> set qs. q_generation_id q = Some (next_uuid d) \<and> source_attribution q = Some []
                  \<and> q_topic_id q = t \<and> q_user_id q = g_user_id gen"
    using qa(5) usr cg by auto
  have proc: "status gen = lit ''processing''" using cg by simp
  show ?thesis
  proof (cases ra)
    case (Inl m)
    then have "d' = da" "r = Inl m" using run a by simp_all
    moreover have "generation_recorded d da (g_user_id gen) t [] None"
      unfolding generation_recorded_def
      apply (rule exI[of _ gen], rule exI[of _ qs], rule exI[of _ "[]"])
      using qa(1-4) qu cg proc g1 by auto
    ultimately show ?thesis using usr by auto
  next
    case qsr: (Inr qrows)
    obtain db rb where b: "createGenerationItems e da (g_id gen) qrows [] = (db, rb)"
      by (cases "createGenerationItems e da (g_id gen) qrows []")
    from createItems_effect[OF b] obtain its where
      ib: "generations db = generations da" "questions db = questions da"
          "next_uuid da \<le> next_uuid db" "generation_items db = generation_items da @ its"
          "\<forall>i \<in> set its. gi_generation_id i = g_id gen \<and> derived_from_sources i = []"
      by blast
    have iu: "\<forall>i \<in> set its. gi_generation_id i = next_uuid d \<and> derived_from_sources i = []"
      using ib(5) cg by auto
    show ?thesis
    proof (cases rb)
      case (Inl m)
      then have "d' = db" "r = Inl m" using run a qsr b by simp_all
      moreover have "generation_recorded d db (g_user_id gen) t [] None"
        unfolding generation_recorded_def
        apply (rule exI[of _ gen], rule exI[of _ qs], rule exI[of _ its])
        using qa(1-4) qu ib(1-4) iu cg proc g1 by auto
      ultimately show ?thesis using usr by auto
    next
      case isr: (Inr irows)
      obtain dc rc where u: "updateGeneration e db (g_id gen) upd = (dc, rc)"
        by (cases "updateGeneration e db (g_id gen) upd")
      have gdb: "generations db = generations d @ [gen]" using ib(1) qa(1) g1 by simp
      from updateGeneration_effect[OF gdb refl usr u] obtain g' where
        uc: "questions dc = questions db" "generation_items dc = generation_items db"
            "next_uuid dc = next_uuid db" "generations dc = generations d @ [g']"
            "g_id g' = g_id gen" "source_ids g' = source_ids gen" "g_user_id g' = g_user_id gen"
            "\<forall>x. rc = Inr x \<longrightarrow> g' = apply_update e upd gen" "\<forall>m. rc = Inl m \<longrightarrow> g' = gen"
        by blast
      have d': "d' = dc" and r: "r = (case rc of Inl m \<Rightarrow> Inl m | Inr x \<Rightarrow> Inr (mk ai))"
        using run a qsr b isr u by (auto split: sum.splits)
      show ?thesis
      proof (cases rc)
        case (Inl m)
        then have "g' = gen" using uc(9) by simp
        then have "generation_recorded d dc (g_user_id gen) t [] None"
          unfolding generation_recorded_def
          apply (intro exI[of _ gen] exI[of _ qs] exI[of _ its])
          using qa(1-4) qu ib(1-4) iu cg proc uc(1-4) by auto
        then show ?thesis using usr d' r Inl by auto
      next
        case (Inr x)
        then have g': "g' = apply_update e upd gen" using uc(8) by simp
        have "status g' = lit ''completed''" "items_generated g' = generated ai"
          unfolding g' using upd by (simp_all add: apply_update_def)
        moreover have "length qs = generated ai" using qa(6) qsr ai by simp
        ultimately have "generation_recorded d dc (g_user_id gen) t [] (Some (generated ai))"
          unfolding generation_recorded_def
          apply (intro exI[of _ g'] exI[of _ qs] exI[of _ its])
          using qa(1-4) qu ib(1-4) iu cg uc(1-7) by auto
        then show ?thesis using usr d' r Inr by auto
      qed
    qed
  qed
qed

lemma direct_summary:
  assumes run: "processDirectTextInput e d t txt title = (d', r)"
  shows "(d' = d \<and> (\<exists>m. r = Inl m))
       \<or> (\<exists>u out. user e = Some u
            \<and> generation_recorded d d' u t [] out
            \<and> (\<forall>res. r = Inr res \<longrightarrow> out = Some (generated (dr_aiGeneration res)))
            \<and> (\<forall>m. r = Inl m \<longrightarrow> out = None))"
proof (cases "user e")
  case None
  then show ?thesis using run by (auto simp: processDirectTextInput_def)
next
  case (Some u)
  show ?thesis
  proof (cases "getTopic e d t")
    case (Inl m)
    then show ?thesis using run Some by (auto simp: processDirectTextInput_def)
  next
    case tp: (Inr tp)
    show ?thesis
    proof (cases "processDirectText txt title (isoNow e)")
      case (Inl m)
      then show ?thesis using run Some tp
        by (auto simp: processDirectTextInput_def wrap_state_simps)
    next
      case ec: (Inr ec)
      show ?thesis
      proof (cases "api_key e")
        case (Inl m)
        then show ?thesis using run Some tp ec
          by (auto simp: processDirectTextInput_def wrap_state_simps)
      next
        case key: (Inr key)
        show ?thesis
        proof (cases "fps_generateAIContent (t_name tp)
             [\<lparr>p_extractedText = Some (extractedText ec), p_content = None\<rparr>] key (completion e)")
          case (Inl m)
          then show ?thesis using run Some tp ec key
            by (auto simp: processDirectTextInput_def wrap_state_simps)
        next
          case ai: (Inr ai)
          obtain d1 rc where c: "createGeneration e d t (lit ''direct_text'') [] (lit ''processing'') = (d1, rc)"
            by (cases "createGeneration e d t (lit ''direct_text'') [] (lit ''processing'')")
          show ?thesis
          proof (cases rc)
            case (Inl m)
            then have "d1 = d" using c createGeneration_Inl by blast
            then show ?thesis using run Some tp ec key ai c Inl
              by (auto simp: processDirectTextInput_def wrap_state_simps)
          next
            case gen: (Inr gen)
            let ?upd = "\<lparr>u_status = Some (lit ''completed''), u_itemsGenerated = Some (generated ai),
              u_breakdown = Some (ai_breakdown ai), u_completedAt = Some (endTime e),
              u_processingTimeMs = None, u_errorMessage = None\<rparr>"
            let ?mk = "\<lambda>ai. \<lparr>dr_content = ec, dr_wordCount = wordCount (ec_metadata ec),
                    dr_aiGeneration = ai, dr_generationId = g_id gen\<rparr>"
            let ?inner = "(case addQuestionsWithGeneration e d1 t (content ai) (g_id gen) [] of
                (d2, Inl m) \<Rightarrow> (d2, Inl m)
              | (d2, Inr qs) \<Rightarrow>
             (case createGenerationItems e d2 (g_id gen) qs [] of
                (d3, Inl m) \<Rightarrow> (d3, Inl m)
              | (d3, Inr gis) \<Rightarrow>
             (case updateGeneration e d3 (g_id gen) ?upd of
                (d4, Inl m) \<Rightarrow> (d4, Inl m)
              | (d4, Inr g') \<Rightarrow> (d4, Inr (?mk ai)))))"
            obtain dx rx where x: "?inner = (dx, rx)" by (cases ?inner)
            have w: "wrap_state (lit ''Failed to process text input: '') (dx, rx) = (d', r)"
              using run unfolding processDirectTextInput_def
              by (simp only: Some tp ec key ai c[unfolded gen] x option.case sum.case prod.case)
            have d': "d' = dx" using w by (simp add: wrap_state_def)
            have r: "r = wrap_error (lit ''Failed to process text input: '') rx"
              using w by (auto simp: wrap_state_def)
            have "\<exists>out. user e = Some (g_user_id gen)
                \<and> generation_recorded d dx (g_user_id gen) t [] out
                \<and> (\<forall>x. rx = Inr x \<longrightarrow> out = Some (generated ai) \<and> x = ?mk ai)
                \<and> (\<forall>m. rx = Inl m \<longrightarrow> out = None)"
              by (rule direct_tail[where mk = "?mk" and upd = "?upd", OF c[unfolded gen] x])
                 (simp_all add: fps_generated[OF ai])
            then
            obtain out where
              o: "user e = Some (g_user_id gen)"
                 "generation_recorded d dx (g_user_id gen) t [] out"
                 "\<forall>x. rx = Inr x \<longrightarrow> out = Some (generated ai) \<and> x = ?mk ai"
                 "\<forall>m. rx = Inl m \<longrightarrow> out = None"
              by auto
            have u: "g_user_id gen = u" using o(1) Some by simp
            have "\<forall>res. r = Inr res \<longrightarrow> out = Some (generated (dr_aiGeneration res))"
              using o(3) r by (cases rx) (auto simp: wrap_error_def)
            moreover have "\<forall>m. r = Inl m \<longrightarrow> out = None"
              using o(4) r by (cases rx) (auto simp: wrap_error_def)
            ultimately show ?thesis using o(2) u Some d' by blast
          qed
        qed
      qed
    qed
  qed
qed

text \<open>The definitions that evaluate a run on a concrete store.\<close>

lemmas run_defs = generateAIContentFromSources_def api_key_def getSources_def
  getKnowledgeBaseBySourceIds_def not_null_def merge_text_entries_def getTopic_def single_def
  createGeneration_def generation_steps_def generation_failed_def fps_generateAIContent_def
  piece_of_entry_def piece_text_def or_str_def trim_def is_space_def or_empty_def
  addQuestionsWithGeneration_def createGenerationItems_def extractItemTitle_def
  updateGeneration_def apply_update_def getKnowledgeBase_def generateAIContent_def

lemmas fixture_defs = env_gen_def env_ok_def no_faults_def db_sources_def source_row_def kb_row_def
  kb_meta_def two_items_def card_def choice_def empty_content_def db_empty_def

section \<open>Replies of the completion service\<close>

text \<open>
  Claim C3, as amended. For content that is not blank, a reply that parses is a success
  exactly when it holds at least one item, and then \<open>generated\<close> is the total number of
  items of the four collections; a parsed reply with zero items is an error (``No content
  was generated''), as is a reply that does not parse.
\<close>

theorem completion_reply_handling:
  assumes "trim (join [10, 10] (map piece_text ps)) \<noteq> []"
  shows "fps_generateAIContent t ps k (Parsed g) =
           (if or_empty (flashcards g) @ or_empty (multipleChoice g) @ or_empty (openEnded g)
               @ or_empty (summaries g) = []
            then Inl (lit ''No content was generated. Please try again.'')
            else Inr \<lparr>generated = length (or_empty (flashcards g)) + length (or_empty (multipleChoice g))
                                   + length (or_empty (openEnded g)) + length (or_empty (summaries g)),
                      content = or_empty (flashcards g) @ or_empty (multipleChoice g)
                                @ or_empty (openEnded g) @ or_empty (summaries g),
                      ai_breakdown = \<lparr>b_flashcards = length (or_empty (flashcards g)),
                                      b_multipleChoice = length (or_empty (multipleChoice g)),
                                      b_openEnded = length (or_empty (openEnded g)),
                                      b_summaries = length (or_empty (summaries g))\<rparr>\<rparr>)
       \<and> fps_generateAIContent t ps k Unparseable
           = Inl (lit ''Failed to parse AI response. Please try again.'')"
  using assms by (simp add: fps_generateAIContent_def Let_def)

text \<open>
  A reply with one flashcard and one multiple-choice item counts 2; a reply with four
  empty collections and a reply that does not parse are errors.
\<close>

theorem completion_reply_handling_witness:
  "fps_generateAIContent (lit ''Biology'') [cells_piece] (lit ''sk-test'') (Parsed two_items)
     = Inr \<lparr>generated = 2, content = [card, choice],
            ai_breakdown = \<lparr>b_flashcards = 1, b_multipleChoice = 1, b_openEnded = 0,
                            b_summaries = 0\<rparr>\<rparr>
   \<and> fps_generateAIContent (lit ''Biology'') [cells_piece] (lit ''sk-test'') (Parsed empty_content)
     = Inl (lit ''No content was generated. Please try again.'')
   \<and> fps_generateAIContent (lit ''Biology'') [cells_piece] (lit ''sk-test'') Unparseable
     = Inl (lit ''Failed to parse AI response. Please try again.'')"
proof -
  have ne: "trim (join [10, 10] (map piece_text [cells_piece])) \<noteq> []"
    by (simp add: cells_piece_def piece_text_def or_str_def trim_def is_space_def)
  show ?thesis
    using completion_reply_handling[OF ne, of "lit ''Biology''" "lit ''sk-test''" two_items]
      completion_reply_handling[OF ne, of "lit ''Biology''" "lit ''sk-test''" empty_content]
    by (simp add: two_items_def empty_content_def or_empty_def)
qed

text \<open>
  Claim C3 as stated fails: a reply that parses to four empty collections is answered
  with an error, not with a success of zero items, and the selective run that received
  it ends with its generation failed.
\<close>

theorem zero_items_run_counterexample:
  "fps_generateAIContent (lit ''Biology'') [cells_piece] (lit ''sk-test'') (Parsed empty_content)
     = Inl (lit ''No content was generated. Please try again.'')
   \<and> snd (generateAIContentFromSources env_ok db_sources 10 [20])
     = Inl (lit ''No content was generated. Please try again.'')
   \<and> map status (generations (fst (generateAIContentFromSources env_ok db_sources 10 [20])))
     = [lit ''failed'']
   \<and> map items_generated (generations (fst (generateAIContentFromSources env_ok db_sources 10 [20])))
     = [0]"
proof -
  have "fps_generateAIContent (lit ''Biology'') [cells_piece] (lit ''sk-test'') (Parsed empty_content)
     = Inl (lit ''No content was generated. Please try again.'')"
    by (simp add: fps_generateAIContent_def cells_piece_def piece_text_def or_str_def trim_def
          is_space_def or_empty_def empty_content_def)
  moreover have "snd (generateAIContentFromSources env_ok db_sources 10 [20])
     = Inl (lit ''No content was generated. Please try again.'')"
    by (simp add: run_defs fixture_defs Let_def)
  moreover have "map status (generations (fst (generateAIContentFromSources env_ok db_sources 10 [20])))
     = [lit ''failed'']"
    by (simp add: run_defs fixture_defs Let_def)
  moreover have "map items_generated (generations (fst (generateAIContentFromSources env_ok db_sources 10 [20])))
     = [0]"
    by (simp add: run_defs fixture_defs Let_def)
  ultimately show ?thesis by blast
qed

section \<open>Attribution containment\<close>

lemma recorded_invariant:
  assumes rec: "generation_recorded d d' u t sids out" and wf: "well_formed d"
    and ok: "attribution_ok d"
  shows "well_formed d' \<and> attribution_ok d'"
proof -
  from rec obtain g qs its where
    r: "generations d' = generations d @ [g]" "g_id g = next_uuid d" "source_ids g = sids"
       "generation_items d' = generation_items d @ its"
       "\<forall>i \<in> set its. gi_generation_id i = next_uuid d \<and> derived_from_sources i = sids"
       "next_uuid d < next_uuid d'"
    unfolding generation_recorded_def by blast
  have "well_formed d'"
    using wf r unfolding well_formed_def by (auto simp: less_trans)
  moreover have "attribution_ok d'"
    unfolding attribution_ok_def
  proof (intro ballI impI)
    fix i g'
    assume i: "i \<in> set (generation_items d')" and g': "g' \<in> set (generations d')"
      and eq: "gi_generation_id i = g_id g'"
    show "set (derived_from_sources i) \<subseteq> set (source_ids g')"
    proof (cases "i \<in> set its")
      case True
      then have a: "gi_generation_id i = next_uuid d" "derived_from_sources i = sids"
        using r(5) by auto
      have "g' = g"
      proof (rule ccontr)
        assume "g' \<noteq> g"
        then have "g' \<in> set (generations d)" using g' r(1) by auto
        then have "g_id g' < next_uuid d" using wf unfolding well_formed_def by blast
        then show False using eq a(1) by simp
      qed
      then show ?thesis using a(2) r(3) by simp
    next
      case False
      then have old: "i \<in> set (generation_items d)" using i r(4) by auto
      then have lt: "gi_generation_id i < next_uuid d" using wf unfolding well_formed_def by blast
      have "g' \<in> set (generations d)"
      proof (rule ccontr)
        assume "g' \<notin> set (generations d)"
        then have "g' = g" using g' r(1) by auto
        then show False using eq lt r(2) by simp
      qed
      then show ?thesis using ok old eq unfolding attribution_ok_def by blast
    qed
  qed
  ultimately show ?thesis ..
qed

text \<open>
  Claim C1. In a store with fresh identifiers in which every generation item's sources
  are among the sources of its generation, the same holds after a generation run of any
  of the three paths (bulk, selective, direct text), whatever the collaborators answer;
  the identifiers stay fresh, so the property holds along any sequence of runs.
\<close>

theorem attribution_containment:
  assumes wf: "well_formed d" and ok: "attribution_ok d"
  shows "well_formed (fst (generateAIContent e d t))
       \<and> attribution_ok (fst (generateAIContent e d t))
       \<and> well_formed (fst (generateAIContentFromSources e d t ids))
       \<and> attribution_ok (fst (generateAIContentFromSources e d t ids))
       \<and> well_formed (fst (processDirectTextInput e d t txt title))
       \<and> attribution_ok (fst (processDirectTextInput e d t txt title))"
proof -
  have b: "well_formed (fst (generateAIContent e d t)) \<and> attribution_ok (fst (generateAIContent e d t))"
    using bulk_summary[OF surjective_pairing, of e d t] recorded_invariant[OF _ wf ok] wf ok
    by auto
  have s: "well_formed (fst (generateAIContentFromSources e d t ids))
       \<and> attribution_ok (fst (generateAIContentFromSources e d t ids))"
    using selective_summary[OF surjective_pairing, of e d t ids] recorded_invariant[OF _ wf ok] wf ok
    by auto
  have x: "well_formed (fst (processDirectTextInput e d t txt title))
       \<and> attribution_ok (fst (processDirectTextInput e d t txt title))"
    using direct_summary[OF surjective_pairing, of e d t "txt" "title"] recorded_invariant[OF _ wf ok] wf ok
    by auto
  from b s x show ?thesis by blast
qed

lemma db_sources_wf: "well_formed db_sources" "attribution_ok db_sources"
  by (simp_all add: well_formed_def attribution_ok_def db_sources_def)

text \<open>
  A selective run on the topic with the requested ids 20, 21 and 23: the generation holds
  the sources 20 and 21, and both generation items of the run belong to it and hold the
  same sources.
\<close>

theorem attribution_containment_witness:
  "attribution_ok (fst (generateAIContentFromSources env_gen db_sources 10 [20, 21, 23]))
   \<and> map source_ids (generations (fst (generateAIContentFromSources env_gen db_sources 10 [20, 21, 23])))
       = [[20, 21]]
   \<and> map derived_from_sources
        (generation_items (fst (generateAIContentFromSources env_gen db_sources 10 [20, 21, 23])))
       = [[20, 21], [20, 21]]
   \<and> map gi_generation_id
        (generation_items (fst (generateAIContentFromSources env_gen db_sources 10 [20, 21, 23])))
       = map g_id (generations (fst (generateAIContentFromSources env_gen db_sources 10 [20, 21, 23])))
         @ [100]"
proof -
  have "attribution_ok (fst (generateAIContentFromSources env_gen db_sources 10 [20, 21, 23]))"
    using attribution_containment[OF db_sources_wf, of env_gen 10 "[20, 21, 23]"] by blast
  moreover have "map source_ids (generations (fst (generateAIContentFromSources env_gen db_sources 10 [20, 21, 23])))
       = [[20, 21]]"
    by (simp add: run_defs fixture_defs Let_def)
  moreover have "map derived_from_sources
        (generation_items (fst (generateAIContentFromSources env_gen db_sources 10 [20, 21, 23])))
       = [[20, 21], [20, 21]]"
    by (simp add: run_defs fixture_defs Let_def)
  moreover have "map gi_generation_id
        (generation_items (fst (generateAIContentFromSources env_gen db_sources 10 [20, 21, 23])))
       = map g_id (generations (fst (generateAIContentFromSources env_gen db_sources 10 [20, 21, 23])))
         @ [100]"
    by (simp add: run_defs fixture_defs Let_def)
  ultimately show ?thesis by blast
qed

section \<open>Attribution is per run\<close>

lemma recorded_exact:
  assumes "generation_recorded d d' u t sids out"
  shows "exact_attribution d d'"
proof -
  from assms obtain g qs its where
    r: "generations d' = generations d @ [g]" "g_id g = next_uuid d" "source_ids g = sids"
       "questions d' = questions d @ qs"
       "\<forall>q \<in> set qs. q_generation_id q = Some (next_uuid d) \<and> source_attribution q = Some sids
                        \<and> q_topic_id q = t \<and> q_user_id q = u"
       "generation_items d' = generation_items d @ its"
       "\<forall>i \<in> set its. gi_generation_id i = next_uuid d \<and> derived_from_sources i = sids"
    unfolding generation_recorded_def by blast
  show ?thesis unfolding exact_attribution_def new_rows_def using r by simp
qed

lemma unchanged_exact: "exact_attribution d d"
  by (simp add: exact_attribution_def new_rows_def)

text \<open>
  Claim C10. On every generation path, each generation item and each question the run
  creates names the generation the run created and carries exactly that generation's
  source ids: the derived sources and the source attribution are never a proper subset
  chosen per item.
\<close>

theorem uniform_attribution:
  "exact_attribution d (fst (generateAIContent e d t))
   \<and> exact_attribution d (fst (generateAIContentFromSources e d t ids))
   \<and> exact_attribution d (fst (processDirectTextInput e d t txt title))"
proof -
  have "exact_attribution d (fst (generateAIContent e d t))"
    using bulk_summary[OF surjective_pairing, of e d t] recorded_exact unchanged_exact by auto
  moreover have "exact_attribution d (fst (generateAIContentFromSources e d t ids))"
    using selective_summary[OF surjective_pairing, of e d t ids] recorded_exact unchanged_exact
    by auto
  moreover have "exact_attribution d (fst (processDirectTextInput e d t txt title))"
    using direct_summary[OF surjective_pairing, of e d t "txt" "title"] recorded_exact unchanged_exact
    by auto
  ultimately show ?thesis by blast
qed

text \<open>
  A bulk run on the topic: the generation, both generation items and both questions
  carry the ids of all three sources of the topic.
\<close>

theorem uniform_attribution_witness:
  "exact_attribution db_sources (fst (generateAIContent env_gen db_sources 10))
   \<and> map source_ids (generations (fst (generateAIContent env_gen db_sources 10))) = [[22, 21, 20]]
   \<and> map derived_from_sources (generation_items (fst (generateAIContent env_gen db_sources 10)))
       = [[22, 21, 20], [22, 21, 20]]
   \<and> map source_attribution (questions (fst (generateAIContent env_gen db_sources 10)))
       = [Some [22, 21, 20], Some [22, 21, 20]]"
proof -
  have "exact_attribution db_sources (fst (generateAIContent env_gen db_sources 10))"
    using uniform_attribution[of db_sources env_gen 10] by blast
  moreover have "map source_ids (generations (fst (generateAIContent env_gen db_sources 10))) = [[22, 21, 20]]"
    by (simp add: run_defs fixture_defs Let_def)
  moreover have "map derived_from_sources (generation_items (fst (generateAIContent env_gen db_sources 10)))
       = [[22, 21, 20], [22, 21, 20]]"
    by (simp add: run_defs fixture_defs Let_def)
  moreover have "map source_attribution (questions (fst (generateAIContent env_gen db_sources 10)))
       = [Some [22, 21, 20], Some [22, 21, 20]]"
    by (simp add: run_defs fixture_defs Let_def)
  ultimately show ?thesis by blast
qed

section \<open>Resolution of the selected sources\<close>

text \<open>
  Claim C2. For a signed-in user with an API key and a readable sources table, selective
  generation behaves on the caller's ids exactly as on the ids among them that the topic
  owns (foreign ids are dropped without an error of their own); when no id is left the
  call throws ``No valid sources found for the selected items.'' and the store is as
  before; and whenever the call creates a Generation, its \<open>sourceIds\<close> are the
  topic-owned ids of the caller, in the caller's order. A bulk run on a topic without
  sources throws and leaves the store as before.
\<close>

theorem selective_input_resolution:
  assumes u: "user e = Some u" and k: "api_key e = Inr key" and s: "fails e SelectSources = None"
  shows "generateAIContentFromSources e d t ids
           = generateAIContentFromSources e d t (filter (\<lambda>i. i \<in> set (topic_source_ids d u t)) ids)
       \<and> (filter (\<lambda>i. i \<in> set (topic_source_ids d u t)) ids = [] \<longrightarrow>
            generateAIContentFromSources e d t ids
              = (d, Inl (lit ''No valid sources found for the selected items.'')))
       \<and> (generations (fst (generateAIContentFromSources e d t ids)) \<noteq> generations d \<longrightarrow>
            (\<exists>g. generations (fst (generateAIContentFromSources e d t ids)) = generations d @ [g]
                 \<and> source_ids g = filter (\<lambda>i. i \<in> set (topic_source_ids d u t)) ids
                 \<and> set (source_ids g) = set ids \<inter> set (topic_source_ids d u t)))
       \<and> (topic_source_ids d u t = [] \<longrightarrow>
            generateAIContent e d t
              = (d, Inl (lit ''No sources available for this topic. Please upload content first.'')))"
proof (intro conjI impI)
  obtain allSources where src: "getSources e d t = Inr allSources"
    using u s by (simp add: getSources_def)
  let ?valid = "filter (\<lambda>i. i \<in> set (topic_source_ids d u t)) ids"
  have v1: "filter (\<lambda>i. \<exists>s \<in> set allSources. s_id s = i) ids = ?valid"
    by (rule valid_ids[OF u src])
  have v2: "filter (\<lambda>i. \<exists>s \<in> set allSources. s_id s = i) ?valid = ?valid"
    using valid_ids[OF u src, of ?valid] by simp
  show "generateAIContentFromSources e d t ids = generateAIContentFromSources e d t ?valid"
    unfolding generateAIContentFromSources_def
    by (simp only: u k src option.case sum.case Let_def v1 v2)
  {
    assume "?valid = []"
    then show "generateAIContentFromSources e d t ids
              = (d, Inl (lit ''No valid sources found for the selected items.''))"
      by (simp add: generateAIContentFromSources_def u k src v1 Let_def)
  }
  {
    assume ch: "generations (fst (generateAIContentFromSources e d t ids)) \<noteq> generations d"
    from selective_summary[OF surjective_pairing, of e d t ids] ch
    obtain u' out where
      "user e = Some u'"
      "generation_recorded d (fst (generateAIContentFromSources e d t ids)) u' t
         (filter (\<lambda>i. i \<in> set (topic_source_ids d u' t)) ids) out"
      by auto
    then have "generation_recorded d (fst (generateAIContentFromSources e d t ids)) u t ?valid out"
      using u by simp
    then obtain g where
      g: "generations (fst (generateAIContentFromSources e d t ids)) = generations d @ [g]"
         "source_ids g = ?valid"
      unfolding generation_recorded_def by blast
    have "set ?valid = set ids \<inter> set (topic_source_ids d u t)" by auto
    then show "\<exists>g. generations (fst (generateAIContentFromSources e d t ids)) = generations d @ [g]
                 \<and> source_ids g = ?valid
                 \<and> set (source_ids g) = set ids \<inter> set (topic_source_ids d u t)"
      using g by auto
  }
  {
    assume "topic_source_ids d u t = []"
    then have "allSources = []" using bulk_ids[OF u src] by simp
    then show "generateAIContent e d t
              = (d, Inl (lit ''No sources available for this topic. Please upload content first.''))"
      by (simp add: generateAIContent_def u k src Let_def)
  }
qed

text \<open>
  The topic owns the sources 20, 21 and 22: the ids 20, 21, 23 resolve to 20 and 21, the
  ids 23 and 99 are refused, and nothing is recorded for them.
\<close>

theorem selective_input_resolution_witness:
  "map source_ids (generations (fst (generateAIContentFromSources env_gen db_sources 10 [20, 21, 23])))
     = [[20, 21]]
   \<and> generateAIContentFromSources env_gen db_sources 10 [20, 21, 23]
     = generateAIContentFromSources env_gen db_sources 10 [20, 21]
   \<and> generateAIContentFromSources env_gen db_sources 10 [23, 99]
     = (db_sources, Inl (lit ''No valid sources found for the selected items.''))
   \<and> generateAIContent env_gen db_sources 12
     = (db_sources, Inl (lit ''No sources available for this topic. Please upload content first.''))"
proof -
  have u: "user env_gen = Some 1" and k: "api_key env_gen = Inr (lit ''sk-test'')"
    and s: "fails env_gen SelectSources = None"
    by (simp_all add: env_gen_def env_ok_def no_faults_def api_key_def)
  have own: "topic_source_ids db_sources 1 10 = [20, 21, 22]"
    and none: "topic_source_ids db_sources 1 12 = []"
    by (simp_all add: topic_source_ids_def db_sources_def source_row_def)
  have ch: "generations (fst (generateAIContentFromSources env_gen db_sources 10 [20, 21, 23]))
      \<noteq> generations db_sources"
    by (simp add: run_defs fixture_defs Let_def)
  note t1 = selective_input_resolution[OF u k s, of db_sources 10 "[20, 21, 23]", unfolded own]
  note t2 = selective_input_resolution[OF u k s, of db_sources 10 "[23, 99]", unfolded own]
  note t3 = selective_input_resolution[OF u k s, of db_sources 12 "[]"]
  from t1 ch obtain g where
    "generations (fst (generateAIContentFromSources env_gen db_sources 10 [20, 21, 23]))
       = generations db_sources @ [g]"
    "source_ids g = filter (\<lambda>i. i \<in> set [20, 21, 22]) [20, 21, 23]"
    by blast
  then have a: "map source_ids (generations (fst (generateAIContentFromSources env_gen db_sources 10 [20, 21, 23])))
     = [[20, 21]]"
    by (simp add: db_sources_def)
  have f: "filter (\<lambda>i. i \<in> set [20, 21, 22]) [20, 21, 23 :: nat] = [20, 21]" by simp
  have b: "generateAIContentFromSources env_gen db_sources 10 [20, 21, 23]
     = generateAIContentFromSources env_gen db_sources 10 [20, 21]"
    using t1[THEN conjunct1] unfolding f .
  have e: "filter (\<lambda>i. i \<in> set [20, 21, 22]) [23, 99 :: nat] = []" by simp
  have c: "generateAIContentFromSources env_gen db_sources 10 [23, 99]
     = (db_sources, Inl (lit ''No valid sources found for the selected items.''))"
    by (rule t2[THEN conjunct2, THEN conjunct1, THEN mp, OF e])
  from t3 none have d: "generateAIContent env_gen db_sources 12
     = (db_sources, Inl (lit ''No sources available for this topic. Please upload content first.''))"
    by blast
  from a b c d show ?thesis by blast
qed

section \<open>Status of a generation\<close>












section \<open>The question pool is additive\<close>

lemma recorded_pool:
  assumes "generation_recorded d d' u t sids (Some n)"
  shows "length (question_pool d' u t) = length (question_pool d u t) + n"
    and "map items_generated (new_rows (generations d) (generations d')) = [n]"
proof -
  from assms obtain g qs where
    r: "generations d' = generations d @ [g]" "questions d' = questions d @ qs"
       "\<forall>q \<in> set qs. q_topic_id q = t \<and> q_user_id q = u" "length qs = n" "items_generated g = n"
    unfolding generation_recorded_def by auto
  have "filter (\<lambda>q. q_topic_id q = t \<and> q_user_id q = u) qs = qs"
    using r(3) by (simp add: filter_id_conv)
  then show "length (question_pool d' u t) = length (question_pool d u t) + n"
    using r(2,4) by (simp add: question_pool_def)
  show "map items_generated (new_rows (generations d) (generations d')) = [n]"
    using r(1,5) by (simp add: new_rows_def)
qed

lemma recorded_questions:
  "generation_recorded d d' u t sids out \<Longrightarrow> take (length (questions d)) (questions d') = questions d"
  unfolding generation_recorded_def by auto

lemma saveQuestion_only_flag:
  "map (\<lambda>q. q\<lparr>is_saved := False\<rparr>) (questions (fst (saveQuestion e d questionId)))
     = map (\<lambda>q. q\<lparr>is_saved := False\<rparr>) (questions d)"
  by (auto simp: saveQuestion_def split: option.splits)

text \<open>
  Claim C5. After a selective generation that succeeds, the question pool of the topic
  has as many questions more as the run reports generated, which is also the
  \<open>items_generated\<close> written on the run's generation; whatever the outcome of the run, the
  questions that were there are still there, unchanged and in place; and
  \<^verbatim>\<open>saveQuestion\<close> changes nothing of a question but \<open>is_saved\<close>.
\<close>

theorem additive_question_pool:
  "(generateAIContentFromSources e d t ids = (d', Inr r) \<and> user e = Some u \<longrightarrow>
      length (question_pool d' u t) = length (question_pool d u t) + r_generated r
      \<and> map items_generated (new_rows (generations d) (generations d')) = [r_generated r])
   \<and> take (length (questions d)) (questions (fst (generateAIContentFromSources e d t ids)))
       = questions d
   \<and> map (\<lambda>q. q\<lparr>is_saved := False\<rparr>) (questions (fst (saveQuestion e d questionId)))
       = map (\<lambda>q. q\<lparr>is_saved := False\<rparr>) (questions d)"
proof (intro conjI impI)
  assume a: "generateAIContentFromSources e d t ids = (d', Inr r) \<and> user e = Some u"
  then have run: "generateAIContentFromSources e d t ids = (d', Inr r)" and u: "user e = Some u"
    by simp_all
  from selective_summary[OF run] u
  have rec: "generation_recorded d d' u t (filter (\<lambda>i. i \<in> set (topic_source_ids d u t)) ids)
               (Some (r_generated r))"
    by auto
  show "length (question_pool d' u t) = length (question_pool d u t) + r_generated r"
    by (rule recorded_pool(1)[OF rec])
  show "map items_generated (new_rows (generations d) (generations d')) = [r_generated r]"
    by (rule recorded_pool(2)[OF rec])
next
  show "take (length (questions d)) (questions (fst (generateAIContentFromSources e d t ids)))
       = questions d"
    using selective_summary[OF surjective_pairing, of e d t ids] recorded_questions by auto
next
  show "map (\<lambda>q. q\<lparr>is_saved := False\<rparr>) (questions (fst (saveQuestion e d questionId)))
       = map (\<lambda>q. q\<lparr>is_saved := False\<rparr>) (questions d)"
    by (rule saveQuestion_only_flag)
qed

lemma db_after_value:
  "questions db_after
     = [\<lparr>q_id = 101, q_topic_id = 10, q_user_id = 1, q_type = lit ''flashcard'',
         question_data = card, is_saved = False, q_generation_id = Some 100,
         source_attribution = Some [20, 21]\<rparr>,
        \<lparr>q_id = 102, q_topic_id = 10, q_user_id = 1, q_type = lit ''multiple-choice'',
         question_data = choice, is_saved = False, q_generation_id = Some 100,
         source_attribution = Some [20, 21]\<rparr>]"
  unfolding db_after_def
  by (simp add: run_defs env_gen_def env_ok_def no_faults_def db_sources_def source_row_def
        kb_row_def kb_meta_def two_items_def Let_def) (simp add: card_def choice_def)

text \<open>
  Two selective runs with the same ids on the topic: the pool grows from 0 to 2 to 4
  questions, the first two stay as they were, and saving question 101 sets its flag
  only.
\<close>

theorem additive_question_pool_witness:
  "length (question_pool db_sources 1 10) = 0
   \<and> length (question_pool db_after 1 10) = 2
   \<and> length (question_pool (fst (generateAIContentFromSources env_gen db_after 10 [20, 21, 23])) 1 10) = 4
   \<and> take 2 (questions (fst (generateAIContentFromSources env_gen db_after 10 [20, 21, 23])))
       = questions db_after
   \<and> map is_saved (questions (fst (saveQuestion env_gen db_after 101))) = [True, False]"
proof -
  let ?r1 = "generateAIContentFromSources env_gen db_sources 10 [20, 21, 23]"
  let ?r2 = "generateAIContentFromSources env_gen db_after 10 [20, 21, 23]"
  have u: "user env_gen = Some 1" by (simp add: env_gen_def env_ok_def)
  have p0: "length (question_pool db_sources 1 10) = 0"
    by (simp add: question_pool_def db_sources_def)
  have s1: "snd ?r1 = Inr \<lparr>r_generated = 2, r_breakdown = \<lparr>b_flashcards = 1, b_multipleChoice = 1,
              b_openEnded = 0, b_summaries = 0\<rparr>, r_generationId = 100, r_sourceCount = Some 2\<rparr>"
    by (simp add: run_defs fixture_defs Let_def)
  have e1: "?r1 = (db_after, Inr \<lparr>r_generated = 2, r_breakdown = \<lparr>b_flashcards = 1,
              b_multipleChoice = 1, b_openEnded = 0, b_summaries = 0\<rparr>, r_generationId = 100,
              r_sourceCount = Some 2\<rparr>)"
    using s1 by (simp add: db_after_def prod_eq_iff)
  from additive_question_pool[THEN conjunct1, THEN mp, OF conjI[OF e1 u]] p0
  have p1: "length (question_pool db_after 1 10) = 2" by simp
  have ql: "length (questions db_after) = 2" by (simp add: db_after_value)
  obtain d2 r2 where e2: "?r2 = (d2, r2)" by (cases ?r2)
  have s2: "\<exists>res. snd ?r2 = Inr res \<and> r_generated res = 2"
    unfolding db_after_def by (simp add: run_defs fixture_defs Let_def)
  then obtain res where res: "r2 = Inr res" "r_generated res = 2" using e2 by auto
  from additive_question_pool[THEN conjunct1, THEN mp, OF conjI[OF e2[unfolded res(1)] u]] p1 res(2)
  have "length (question_pool d2 1 10) = 4" by simp
  then have p2: "length (question_pool (fst ?r2) 1 10) = 4" using e2 by simp
  from additive_question_pool[THEN conjunct2, THEN conjunct1, of db_after env_gen 10 "[20, 21, 23]"]
  have k: "take 2 (questions (fst ?r2)) = questions db_after" using ql by simp
  have sv: "map is_saved (questions (fst (saveQuestion env_gen db_after 101))) = [True, False]"
    by (simp add: saveQuestion_def u db_after_value env_gen_def env_ok_def no_faults_def)
  from p0 p1 p2 k sv show ?thesis by blast
qed

section \<open>Compensation when the document cannot be saved\<close>



lemma storage_remove_blobs:
  "fails e StorageRemove = None \<Longrightarrow>
     blobs (storage_remove e d path) = filter (\<lambda>p. p \<noteq> path) (blobs d)"
  by (simp add: storage_remove_def)


text \<open>
  The answer of the removal is dropped by the callers: when the bucket refuses the
  removal the blob stays, and the error returned is still the persistence error.
\<close>

lemma delete_refused_leaves_blob:
  assumes "auth_retry replies 0 = Inr u" and "fails e StorageUpload = None"
    and "fails e RpcInsertDocument = Some err" and "fails e StorageRemove = Some err'"
  shows "upload_path e t u f \<in> set (blobs (fst (uploadFile e d replies t f)))"
  using assms
  by (simp add: uploadFile_def storage_upload_def simple_insert_document_def storage_remove_def Let_def)




end
